theory Spec2Isabelle
  imports Complex_Main
begin

section \<open>The cube grid: a shallow embedding of both program variants\<close>

text \<open>
  The repository holds two near-identical browser programs. \<^emph>\<open>Variant A\<close>
  (\<^verbatim>\<open>src/unnamed/part_000\<close>) textures the clicked cube in place and resets everything on a
  right click; \<^emph>\<open>variant B\<close> (\<^verbatim>\<open>src/main.js\<close>) spawns a new cube per click, highlights the
  hovered column and has its reset commented out.

  Conventions of the embedding:
  \<^item> A JavaScript number is an exact rational or \<open>NaN\<close>. The programs only add, subtract,
    multiply and compare a handful of small constants, so rounding of doubles is left out
    of the model; \<open>NaN\<close> is kept because variant A can compute with \<open>undefined\<close>.
  \<^item> A mesh is identified by its index in the array \<open>cubes\<close>; the array only ever grows, so
    an index names the same object for ever. Every mesh owns its material (variant B
    clones it), so materials are stored by value inside the mesh.
  \<^item> The ray caster, the tweening engine and the renderer are external libraries. A ray cast
    is an input of the event (the list of hit meshes, nearest first); a scheduled animation
    is appended to the log \<open>tweens\<close>.
\<close>

subsection \<open>JavaScript numbers\<close>

datatype jsnum = Num rat | NaN

fun js_add :: "jsnum \<Rightarrow> jsnum \<Rightarrow> jsnum" where
  "js_add (Num a) (Num b) = Num (a + b)"
| "js_add _ _ = NaN"

fun js_sub :: "jsnum \<Rightarrow> jsnum \<Rightarrow> jsnum" where
  "js_sub (Num a) (Num b) = Num (a - b)"
| "js_sub _ _ = NaN"

fun js_mul :: "jsnum \<Rightarrow> jsnum \<Rightarrow> jsnum" where
  "js_mul (Num a) (Num b) = Num (a * b)"
| "js_mul _ _ = NaN"

text \<open>\<^verbatim>\<open>a < b\<close>: false as soon as one side is \<open>NaN\<close>.\<close>

fun js_lt :: "jsnum \<Rightarrow> jsnum \<Rightarrow> bool" where
  "js_lt (Num a) (Num b) = (a < b)"
| "js_lt _ _ = False"

text \<open>\<^verbatim>\<open>Math.min\<close> and \<^verbatim>\<open>Math.max\<close>: \<open>NaN\<close> as soon as one argument is \<open>NaN\<close>.\<close>

fun Math_min :: "jsnum \<Rightarrow> jsnum \<Rightarrow> jsnum" where
  "Math_min (Num a) (Num b) = Num (min a b)"
| "Math_min _ _ = NaN"

fun Math_max :: "jsnum \<Rightarrow> jsnum \<Rightarrow> jsnum" where
  "Math_max (Num a) (Num b) = Num (max a b)"
| "Math_max _ _ = NaN"

text \<open>
  The result of \<^verbatim>\<open>Map.get\<close> is a \<open>jsnum option\<close>, \<open>None\<close> standing for \<^verbatim>\<open>undefined\<close>.
  Used as an operand of arithmetic, \<^verbatim>\<open>undefined\<close> converts to \<open>NaN\<close>; \<^verbatim>\<open>v || 0\<close> replaces
  the falsy values \<^verbatim>\<open>undefined\<close>, \<open>NaN\<close> and \<open>0\<close> by \<open>0\<close>.
\<close>

fun to_number :: "jsnum option \<Rightarrow> jsnum" where
  "to_number None = NaN"
| "to_number (Some v) = v"

fun or_zero :: "jsnum option \<Rightarrow> jsnum" where
  "or_zero None = Num 0"
| "or_zero (Some NaN) = Num 0"
| "or_zero (Some (Num r)) = (if r = 0 then Num 0 else Num r)"

subsection \<open>Data model\<close>

text \<open>
  The x and y coordinates of a mesh are only ever assigned grid coordinates or copies of
  them; the z coordinate is also written by the drop animation, whose target can be \<open>NaN\<close>
  in variant A.
\<close>

record vector3 =
  vec_x :: rat
  vec_y :: rat
  vec_z :: jsnum

datatype texture_image = Texture string

record material =
  color :: int
  opacity :: rat
  transparent :: bool
  map_texture :: "texture_image option"
  emissive :: int
  needsUpdate :: bool

record mesh =
  position :: vector3
  material :: material
  textured :: bool

text \<open>
  A call of the tweening engine: \<^verbatim>\<open>gsap.fromTo(target.position, {z: from}, {z: to, duration, ease})\<close>
  or \<^verbatim>\<open>gsap.to(target.position, {x, y, z, duration, ease})\<close>.
\<close>

datatype tween =
  FromTo nat jsnum jsnum rat string
| To nat vector3 rat string

datatype scene_object = SceneMesh nat | DirectionalLight | AmbientLight

datatype js_error = TypeError

type_synonym column_key = "rat \<times> rat"

record state =
  cubes :: "mesh list"
  originalPositions :: "nat \<rightharpoonup> vector3"
  cubePositions :: "column_key \<rightharpoonup> jsnum"
  scene :: "scene_object list"
  highlightedCubes :: "nat list"
  tweens :: "tween list"
  console :: "string list"

datatype variant = VariantA | VariantB

subsection \<open>Constants\<close>

definition texture :: texture_image where
  "texture = Texture ''cube_texture.jpg''"

definition cubeSize :: rat where
  "cubeSize = 1 / 2"

definition gridSize :: nat where
  "gridSize = 10"

definition spacing :: rat where
  "spacing = 1 / 20"

definition boundaryMin :: rat where
  "boundaryMin = - (of_nat gridSize / 2) * (cubeSize + spacing)"

definition boundaryMax :: rat where
  "boundaryMax = (of_nat gridSize / 2 - 1) * (cubeSize + spacing)"

text \<open>
  \<^verbatim>\<open>positionKey(x, y)\<close> builds the string \<^verbatim>\<open>`${x}_${y}`\<close>. Printing a number is injective on
  the coordinates that occur, so the key is modelled by the pair itself.
\<close>

definition positionKey :: "rat \<Rightarrow> rat \<Rightarrow> column_key" where
  "positionKey x y = (x, y)"

subsection \<open>Grid construction\<close>

text \<open>The coordinate \<^verbatim>\<open>(i - gridSize / 2) * (cubeSize + spacing)\<close> of grid index \<open>i\<close>.\<close>

definition grid_coord :: "nat \<Rightarrow> rat" where
  "grid_coord i = (of_nat i - of_nat gridSize / 2) * (cubeSize + spacing)"

text \<open>
  The material a grid cube is created with: opacity \<open>0.1\<close> in variant A; in variant B
  opacity \<open>0.01\<close>, raised to \<open>0.8\<close> on the layer \<open>z == 0\<close>.
\<close>

definition initial_material :: "variant \<Rightarrow> nat \<Rightarrow> material" where
  "initial_material v z =
     \<lparr>color = 0xffffff,
      opacity = (case v of VariantA \<Rightarrow> 1 / 10 | VariantB \<Rightarrow> if z = 0 then 8 / 10 else 1 / 100),
      transparent = True, map_texture = None, emissive = 0x000000, needsUpdate = False\<rparr>"

definition smallCube :: "variant \<Rightarrow> nat \<Rightarrow> nat \<Rightarrow> nat \<Rightarrow> mesh" where
  "smallCube v x y z =
     \<lparr>position = \<lparr>vec_x = grid_coord x, vec_y = grid_coord y, vec_z = Num (grid_coord z)\<rparr>,
      material = initial_material v z,
      textured = False\<rparr>"

text \<open>The body of the innermost loop.\<close>

definition grid_body :: "variant \<Rightarrow> nat \<Rightarrow> nat \<Rightarrow> state \<Rightarrow> nat \<Rightarrow> state" where
  "grid_body v x y s z =
     (let c = smallCube v x y z;
          n = length (cubes s);
          s1 = s\<lparr>originalPositions := (originalPositions s)(n \<mapsto> position c),
                 cubes := cubes s @ [c],
                 scene := scene s @ [SceneMesh n]\<rparr>;
          k = positionKey (vec_x (position c)) (vec_y (position c))
      in if cubePositions s1 k = None
         then s1\<lparr>cubePositions := (cubePositions s1)(k \<mapsto> Num 0)\<rparr>
         else s1)"

definition empty_state :: state where
  "empty_state =
     \<lparr>cubes = [], originalPositions = Map.empty, cubePositions = Map.empty,
      scene = [], highlightedCubes = [], tweens = [], console = []\<rparr>"

text \<open>The three nested \<^verbatim>\<open>for\<close> loops, then the two lights are added to the scene.\<close>

definition build_grid :: "variant \<Rightarrow> state \<Rightarrow> state" where
  "build_grid v s0 =
     foldl (\<lambda>s x. foldl (\<lambda>s y. foldl (grid_body v x y) s [0..<gridSize]) s [0..<gridSize])
       s0 [0..<gridSize]"

definition startup :: "variant \<Rightarrow> state" where
  "startup v =
     (let s = build_grid v empty_state
      in s\<lparr>scene := scene s @ [DirectionalLight, AmbientLight]\<rparr>)"

subsection \<open>The tweening engine\<close>

text \<open>
  Modelled from the spec: the tweening library is an external collaborator with
  \<^verbatim>\<open>animate-from-to(object, startProps, endProps, duration, easing)\<close> semantics, used
  fire-and-forget. A from-to animation puts the animated property at its start value when
  it is created; every call is logged in \<open>tweens\<close> in the order of the calls.
\<close>

definition set_z :: "nat \<Rightarrow> jsnum \<Rightarrow> mesh list \<Rightarrow> mesh list" where
  "set_z i z cs = (if i < length cs then cs[i := (cs ! i)\<lparr>position := (position (cs ! i))\<lparr>vec_z := z\<rparr>\<rparr>] else cs)"

definition gsap_fromTo :: "nat \<Rightarrow> jsnum \<Rightarrow> jsnum \<Rightarrow> rat \<Rightarrow> string \<Rightarrow> state \<Rightarrow> state" where
  "gsap_fromTo i from_z to_z dur ease s =
     s\<lparr>cubes := set_z i from_z (cubes s),
       tweens := tweens s @ [FromTo i from_z to_z dur ease]\<rparr>"

definition gsap_to :: "nat \<Rightarrow> vector3 \<Rightarrow> rat \<Rightarrow> string \<Rightarrow> state \<Rightarrow> state" where
  "gsap_to i target dur ease s = s\<lparr>tweens := tweens s @ [To i target dur ease]\<rparr>"

text \<open>
  Modelled from the spec: a finished animation leaves the animated properties at their end
  values. \<open>finish_tweens\<close> lets every logged animation run to its end, in the order in
  which the animations were started.
\<close>

fun finish_tween :: "mesh list \<Rightarrow> tween \<Rightarrow> mesh list" where
  "finish_tween cs (FromTo i from_z to_z dur ease) = set_z i to_z cs"
| "finish_tween cs (To i target dur ease) =
     (if i < length cs then cs[i := (cs ! i)\<lparr>position := target\<rparr>] else cs)"

definition finish_tweens :: "state \<Rightarrow> state" where
  "finish_tweens s = s\<lparr>cubes := foldl finish_tween (cubes s) (tweens s)\<rparr>"

subsection \<open>Drop target\<close>

text \<open>The top of the grid, where every drop animation starts.\<close>

definition dropStart :: jsnum where
  "dropStart = Num ((of_nat gridSize / 2) * (cubeSize + spacing))"

definition newZPositionA :: "jsnum \<Rightarrow> jsnum" where
  "newZPositionA currentZ =
     js_sub (js_mul currentZ (Num (cubeSize + spacing)))
            (Num ((of_nat gridSize / 2) * (cubeSize + spacing)))"

definition newZPositionB :: "jsnum \<Rightarrow> jsnum" where
  "newZPositionB currentZ =
     js_sub (js_mul (js_add currentZ (Num 1)) (Num (cubeSize + spacing)))
            (Num ((of_nat gridSize / 2) * (cubeSize + spacing)))"

definition constrainedZPosition :: "jsnum \<Rightarrow> jsnum" where
  "constrainedZPosition newZPosition =
     Math_min (Num boundaryMax) (Math_max (Num boundaryMin) newZPosition)"

subsection \<open>Reading the stack height of a column\<close>

definition mesh_key :: "mesh \<Rightarrow> column_key" where
  "mesh_key c = positionKey (vec_x (position c)) (vec_y (position c))"

text \<open>
  Variant A: \<^verbatim>\<open>let currentZ = cubePositions.get(positionKey(clickedX, clickedY));\<close> with
  \<open>None\<close> for \<^verbatim>\<open>undefined\<close>. Variant B:
  \<^verbatim>\<open>let currentZ = cubePositions.get(positionKey(clickedX, clickedY)) || 0;\<close>
\<close>

definition currentZ_A :: "state \<Rightarrow> mesh \<Rightarrow> jsnum option" where
  "currentZ_A s cube =
     (let clickedX = vec_x (position cube); clickedY = vec_y (position cube)
      in cubePositions s (positionKey clickedX clickedY))"

definition currentZ_B :: "state \<Rightarrow> mesh \<Rightarrow> jsnum" where
  "currentZ_B s clicked =
     (let clickedX = vec_x (position clicked); clickedY = vec_y (position clicked)
      in or_zero (cubePositions s (positionKey clickedX clickedY)))"

subsection \<open>Variant A: click handler and reset\<close>

text \<open>
  \<open>intersects\<close> is the result of the ray cast: the indices of the hit meshes, nearest first.
  The ray caster only returns meshes of the array it was given; an index outside the
  array is treated like an empty result.
\<close>

definition onCubeClickA :: "state \<Rightarrow> nat list \<Rightarrow> state" where
  "onCubeClickA s intersects =
     (case intersects of
        [] \<Rightarrow> s
      | i # _ \<Rightarrow>
          if \<not> i < length (cubes s) then s
          else
            let cube = cubes s ! i in
            if textured cube then s
            else
              let cube1 = cube\<lparr>material := (material cube)\<lparr>map_texture := Some texture,
                                                            opacity := 1,
                                                            needsUpdate := True\<rparr>,
                               textured := True\<rparr>;
                  s1 = s\<lparr>cubes := (cubes s)[i := cube1]\<rparr>;
                  clickedX = vec_x (position cube1);
                  clickedY = vec_y (position cube1);
                  currentZ = currentZ_A s1 cube1;
                  newZPosition = newZPositionA (to_number currentZ);
                  s2 = gsap_fromTo i dropStart (constrainedZPosition newZPosition)
                         (3 / 2) ''bounce.out'' s1
              in s2\<lparr>cubePositions := (cubePositions s2)
                        (positionKey clickedX clickedY \<mapsto> js_add (to_number currentZ) (Num 1))\<rparr>)"

text \<open>
  One round of the \<^verbatim>\<open>forEach\<close> of \<^verbatim>\<open>undoAllCubes\<close>, for the cube of index \<open>i\<close> with recorded
  position \<open>p\<close>.
\<close>

definition undo_cube :: "nat \<Rightarrow> vector3 \<Rightarrow> state \<Rightarrow> state" where
  "undo_cube i p s =
     (let s1 = gsap_to i p 1 ''power2.out'' s;
          cube = cubes s1 ! i;
          cube1 = cube\<lparr>material := (material cube)\<lparr>map_texture := None,
                                                    opacity := 1 / 10,
                                                    needsUpdate := True\<rparr>,
                       textured := False\<rparr>
      in s1\<lparr>cubes := (cubes s1)[i := cube1]\<rparr>)"

text \<open>
  The \<^verbatim>\<open>forEach\<close> over \<open>cubes\<close>. Reading \<^verbatim>\<open>originalPosition.x\<close> of a cube without a recorded
  position throws a \<open>TypeError\<close>, which leaves the handler with the cubes before it
  already reset.
\<close>

fun undo_loop :: "nat list \<Rightarrow> state \<Rightarrow> js_error option \<times> state" where
  "undo_loop [] s = (None, s)"
| "undo_loop (i # is) s =
     (case originalPositions s i of
        None \<Rightarrow> (Some TypeError, s)
      | Some p \<Rightarrow> undo_loop is (undo_cube i p s))"

definition undoAllCubes :: "state \<Rightarrow> js_error option \<times> state" where
  "undoAllCubes s =
     (case undo_loop [0..<length (cubes s)] s of
        (Some e, s1) \<Rightarrow> (Some e, s1)
      | (None, s1) \<Rightarrow>
          (None, s1\<lparr>cubePositions := (\<lambda>k. map_option (\<lambda>_. Num 0) (cubePositions s1 k))\<rparr>))"

text \<open>The \<^verbatim>\<open>mousedown\<close> listener of variant A, for the pressed button and the ray cast.\<close>

definition mousedownA :: "state \<Rightarrow> nat \<Rightarrow> nat list \<Rightarrow> js_error option \<times> state" where
  "mousedownA s button intersects =
     (if button = 0 then (None, onCubeClickA s intersects)
      else if button = 2 then undoAllCubes s
      else (None, s))"

subsection \<open>Variant B: click handler, highlighter and disabled reset\<close>

definition onCubeClickB :: "state \<Rightarrow> nat list \<Rightarrow> state" where
  "onCubeClickB s intersects =
     (case intersects of
        [] \<Rightarrow> s
      | i # _ \<Rightarrow>
          if \<not> i < length (cubes s) then s
          else
            let clicked = cubes s ! i;
                clickedX = vec_x (position clicked);
                clickedY = vec_y (position clicked);
                currentZ = currentZ_B s clicked;
                maxStackHeight = Num (of_nat gridSize)
            in if js_lt currentZ maxStackHeight then
                 let n = length (cubes s);
                     cube = \<lparr>position = \<lparr>vec_x = clickedX, vec_y = clickedY,
                                          vec_z = vec_z (position clicked)\<rparr>,
                             material = (material clicked)\<lparr>map_texture := Some texture,
                                                          opacity := 1,
                                                          needsUpdate := True,
                                                          emissive := 0x000000\<rparr>,
                             textured = True\<rparr>;
                     s1 = s\<lparr>scene := scene s @ [SceneMesh n], cubes := cubes s @ [cube]\<rparr>;
                     newZPosition = newZPositionB currentZ;
                     s2 = gsap_fromTo n dropStart (constrainedZPosition newZPosition)
                            (3 / 2) ''bounce.out'' s1
                 in s2\<lparr>cubePositions := (cubePositions s2)
                          (positionKey clickedX clickedY \<mapsto> js_add currentZ (Num 1))\<rparr>
               else s\<lparr>console := console s @ [''Stack is full, cannot place any more cubes here.'']\<rparr>)"

definition set_emissive :: "nat \<Rightarrow> int \<Rightarrow> mesh list \<Rightarrow> mesh list" where
  "set_emissive i hex cs =
     (if i < length cs then cs[i := (cs ! i)\<lparr>material := (material (cs ! i))\<lparr>emissive := hex\<rparr>\<rparr>] else cs)"

text \<open>The test of the highlighter: both coordinates closer than \<open>0.001\<close>.\<close>

definition same_column :: "rat \<Rightarrow> rat \<Rightarrow> mesh \<Rightarrow> bool" where
  "same_column targetX targetY cube \<longleftrightarrow>
     \<bar>vec_x (position cube) - targetX\<bar> < 1 / 1000 \<and> \<bar>vec_y (position cube) - targetY\<bar> < 1 / 1000"

definition highlight_step :: "rat \<Rightarrow> rat \<Rightarrow> state \<Rightarrow> nat \<Rightarrow> state" where
  "highlight_step targetX targetY s j =
     (if same_column targetX targetY (cubes s ! j)
      then s\<lparr>cubes := set_emissive j 0xff0000 (cubes s),
             highlightedCubes := highlightedCubes s @ [j]\<rparr>
      else s)"

definition onMouseMove :: "state \<Rightarrow> nat list \<Rightarrow> state" where
  "onMouseMove s intersects =
     (let s1 = (if highlightedCubes s \<noteq> []
                then s\<lparr>cubes := foldl (\<lambda>cs j. set_emissive j 0x000000 cs) (cubes s) (highlightedCubes s),
                       highlightedCubes := []\<rparr>
                else s)
      in case intersects of
           [] \<Rightarrow> s1
         | i # _ \<Rightarrow>
             if \<not> i < length (cubes s1) then s1
             else
               let intersectedCube = cubes s1 ! i;
                   targetX = vec_x (position intersectedCube);
                   targetY = vec_y (position intersectedCube)
               in foldl (highlight_step targetX targetY) s1 [0..<length (cubes s1)])"

text \<open>The \<^verbatim>\<open>mousedown\<close> listener of variant B: the body of the right-click case is commented out.\<close>

definition mousedownB :: "state \<Rightarrow> nat \<Rightarrow> nat list \<Rightarrow> state" where
  "mousedownB s button intersects =
     (if button = 0 then onCubeClickB s intersects
      else if button = 2 then s
      else s)"

subsection \<open>Events and reachable states\<close>

text \<open>
  Between two handlers the tweening engine may write the z coordinate of any cube (an
  animation in progress); \<open>Frame i z\<close> is such a write. The x and y coordinates of a reset
  animation start and end at the same value and so stay put.
\<close>

datatype event = MouseDown nat "nat list" | MouseMove "nat list" | Frame nat jsnum


fun stepB :: "state \<Rightarrow> event \<Rightarrow> state" where
  "stepB s (MouseDown button intersects) = mousedownB s button intersects"
| "stepB s (MouseMove intersects) = onMouseMove s intersects"
| "stepB s (Frame i z) = s\<lparr>cubes := set_z i z (cubes s)\<rparr>"


inductive reachableB :: "state \<Rightarrow> bool" where
  initB: "reachableB (startup VariantB)"
| nextB: "reachableB s \<Longrightarrow> reachableB (stepB s e)"

subsection \<open>Auxiliary notions for the proofs\<close>

text \<open>The cubes of the grid in the order in which the three loops create them.\<close>

definition grid_cubes :: "variant \<Rightarrow> mesh list" where
  "grid_cubes v =
     concat (map (\<lambda>x. concat (map (\<lambda>y. map (smallCube v x y) [0..<gridSize]) [0..<gridSize]))
       [0..<gridSize])"

text \<open>What the construction loop keeps true of the state it builds.\<close>

definition grid_inv :: "state \<Rightarrow> bool" where
  "grid_inv s \<longleftrightarrow>
     (\<forall>i. originalPositions s i
            = (if i < length (cubes s) then Some (position (cubes s ! i)) else None)) \<and>
     (\<forall>k h. cubePositions s k = Some h \<longrightarrow> h = Num 0) \<and>
     (\<forall>c \<in> set (cubes s). cubePositions s (mesh_key c) = Some (Num 0)) \<and>
     highlightedCubes s = [] \<and> tweens s = [] \<and> console s = []"

text \<open>
  A single column of the grid, built by the innermost construction loop for \<open>x = 0\<close> and
  \<open>y = 0\<close>: a small state on which the handlers are evaluated.
\<close>

definition column_grid :: "variant \<Rightarrow> state" where
  "column_grid v = foldl (grid_body v 0 0) empty_state [0..<gridSize]"

text \<open>
  The cube that a successful click of variant B adds: a copy of the clicked cube's x and y,
  a clone of its material with the texture attached, full opacity and no highlight tint,
  placed at the start of its drop animation.
\<close>

definition spawnedCube :: "mesh \<Rightarrow> mesh" where
  "spawnedCube clicked =
     \<lparr>position = \<lparr>vec_x = vec_x (position clicked), vec_y = vec_y (position clicked),
                  vec_z = dropStart\<rparr>,
      material = (material clicked)\<lparr>map_texture := Some texture, opacity := 1,
                                   needsUpdate := True, emissive := 0x000000\<rparr>,
      textured = True\<rparr>"

text \<open>The one-column state of variant B after \<open>gridSize\<close> clicks on its bottom cube.\<close>

definition full_column :: state where
  "full_column = foldl onCubeClickB (column_grid VariantB) (replicate gridSize [0])"

text \<open>
  The clicked cube after a successful click of variant A: textured, opaque, and placed at
  the start of its drop animation.
\<close>

definition revealedCube :: "mesh \<Rightarrow> mesh" where
  "revealedCube cube =
     cube\<lparr>material := (material cube)\<lparr>map_texture := Some texture, opacity := 1, needsUpdate := True\<rparr>,
          textured := True,
          position := (position cube)\<lparr>vec_z := dropStart\<rparr>\<rparr>"

text \<open>A mesh with its emissive tint set, and a list of meshes with the tint set where \<open>P\<close> holds.\<close>

definition with_emissive :: "int \<Rightarrow> mesh \<Rightarrow> mesh" where
  "with_emissive hex c = c\<lparr>material := (material c)\<lparr>emissive := hex\<rparr>\<rparr>"

definition tinted :: "int \<Rightarrow> (nat \<Rightarrow> bool) \<Rightarrow> mesh list \<Rightarrow> mesh list" where
  "tinted hex P cs = map (\<lambda>j. if P j then with_emissive hex (cs ! j) else cs ! j) [0..<length cs]"

text \<open>
  Three cubes of the column \<open>(0, 0)\<close> and one cube of the column \<open>(1, 0)\<close>, built by the body
  of the construction loop, with the pointer over the lone cube.
\<close>

definition hovered :: state where
  "hovered =
     onMouseMove (grid_body VariantB 1 0 (foldl (grid_body VariantB 0 0) empty_state [0..<3]) 0) [3]"

text \<open>The keys of the columns of the grid, and the stack height stored under a key as a natural number.\<close>

definition grid_keys :: "column_key set" where
  "grid_keys = (\<lambda>(x, y). positionKey (grid_coord x) (grid_coord y)) ` ({..<gridSize} \<times> {..<gridSize})"

fun height_of :: "jsnum option \<Rightarrow> nat" where
  "height_of (Some (Num r)) = nat \<lfloor>r\<rfloor>"
| "height_of _ = 0"

text \<open>
  The invariant of variant B: every stored height is a natural number up to \<open>gridSize\<close>;
  the tracked cubes are the grid cubes followed by one spawned cube per scheduled drop;
  the \<open>j\<close>-th drop is the one of the \<open>j\<close>-th spawned cube and ends at least one layer above
  the base; every cube stands in a column of the grid; the number of drops is the sum of
  the stack heights; and every column of the grid has a stored height.
\<close>

definition invB :: "state \<Rightarrow> bool" where
  "invB s \<longleftrightarrow>
     (\<forall>k h. cubePositions s k = Some h \<longrightarrow> (\<exists>n\<le>gridSize. h = Num (of_nat n))) \<and>
     length (cubes s) = gridSize * gridSize * gridSize + length (tweens s) \<and>
     (\<forall>j<length (tweens s). \<exists>t. tweens s ! j
          = FromTo (gridSize * gridSize * gridSize + j) dropStart (Num t) (3 / 2) ''bounce.out''
        \<and> boundaryMin + (cubeSize + spacing) \<le> t) \<and>
     set (map mesh_key (cubes s)) \<subseteq> grid_keys \<and>
     length (tweens s) = (\<Sum>k\<in>grid_keys. height_of (cubePositions s k)) \<and>
     (\<forall>k\<in>grid_keys. cubePositions s k \<noteq> None)"


text \<open>A cube as one round of the reset loop leaves it.\<close>

definition resetCube :: "mesh \<Rightarrow> mesh" where
  "resetCube cube =
     cube\<lparr>material := (material cube)\<lparr>map_texture := None, opacity := 1 / 10, needsUpdate := True\<rparr>,
          textured := False\<rparr>"



section \<open>Facts about the grid construction\<close>

lemma foldl_cubes_concat:
  assumes "\<And>s a. cubes (f s a) = cubes s @ g a"
  shows "cubes (foldl f s xs) = cubes s @ concat (map g xs)"
  by (induction xs arbitrary: s) (simp_all add: assms)

lemma foldl_invariant:
  assumes "P s" and "\<And>s a. P s \<Longrightarrow> P (f s a)"
  shows "P (foldl f s xs)"
  using assms(1) by (induction xs arbitrary: s) (simp_all add: assms(2))

lemma cubes_grid_body: "cubes (grid_body v x y s z) = cubes s @ [smallCube v x y z]"
  by (simp add: grid_body_def Let_def)

lemma cubes_build_grid: "cubes (build_grid v s0) = cubes s0 @ grid_cubes v"
proof -
  have inner: "cubes (foldl (grid_body v x y) s zs) = cubes s @ map (smallCube v x y) zs" for x y s zs
    using foldl_cubes_concat [of "grid_body v x y" "\<lambda>z. [smallCube v x y z]" s zs]
    by (simp add: cubes_grid_body)
  have middle: "cubes (foldl (\<lambda>s y. foldl (grid_body v x y) s zs) s ys)
      = cubes s @ concat (map (\<lambda>y. map (smallCube v x y) zs) ys)" for x s ys zs
    by (rule foldl_cubes_concat) (rule inner)
  show ?thesis
    unfolding build_grid_def grid_cubes_def
    by (rule foldl_cubes_concat) (rule middle)
qed

lemma cubes_startup: "cubes (startup v) = grid_cubes v"
  by (simp add: startup_def Let_def cubes_build_grid empty_state_def)

lemma length_grid_cubes: "length (grid_cubes v) = gridSize * gridSize * gridSize"
  by (simp add: grid_cubes_def length_concat comp_def sum_list_triv)

lemma in_concat_map: "a \<in> set xs \<Longrightarrow> c \<in> set (f a) \<Longrightarrow> c \<in> set (concat (map f xs))"
  by auto

lemma concat_map_cases:
  assumes "c \<in> set (concat (map f xs))"
  obtains a where "a \<in> set xs" "c \<in> set (f a)"
  using assms by auto

lemma smallCube_in_grid:
  assumes "x < gridSize" "y < gridSize" "z < gridSize"
  shows "smallCube v x y z \<in> set (grid_cubes v)"
  unfolding grid_cubes_def
proof (rule in_concat_map [where a = x])
  show "x \<in> set [0..<gridSize]" using assms by simp
  show "smallCube v x y z \<in> set (concat (map (\<lambda>y. map (smallCube v x y) [0..<gridSize]) [0..<gridSize]))"
  proof (rule in_concat_map [where a = y])
    show "y \<in> set [0..<gridSize]" using assms by simp
    show "smallCube v x y z \<in> set (map (smallCube v x y) [0..<gridSize])"
      using assms by simp
  qed
qed

lemma grid_cubes_cases:
  assumes "c \<in> set (grid_cubes v)"
  obtains x y z where "c = smallCube v x y z" "x < gridSize" "y < gridSize" "z < gridSize"
proof -
  from assms obtain x where x: "x \<in> set [0..<gridSize]"
    and cx: "c \<in> set (concat (map (\<lambda>y. map (smallCube v x y) [0..<gridSize]) [0..<gridSize]))"
    unfolding grid_cubes_def by (rule concat_map_cases)
  from cx obtain y where y: "y \<in> set [0..<gridSize]"
    and cy: "c \<in> set (map (smallCube v x y) [0..<gridSize])"
    by (rule concat_map_cases)
  from cy obtain z where "z \<in> set [0..<gridSize]" "c = smallCube v x y z"
    by (metis imageE list.set_map)
  with x y that show thesis by simp
qed

lemma mesh_key_smallCube: "mesh_key (smallCube v x y z) = positionKey (grid_coord x) (grid_coord y)"
  by (simp add: mesh_key_def smallCube_def)

lemma textured_smallCube: "\<not> textured (smallCube v x y z)"
  by (simp add: smallCube_def)

lemma upt_grid: "[0..<gridSize] = 0 # [Suc 0..<gridSize]"
  by (rule upt_conv_Cons) (simp add: gridSize_def)

lemma grid_cubes_nth0: "grid_cubes v ! 0 = smallCube v 0 0 0"
  unfolding grid_cubes_def
  apply (subst upt_grid)
  apply (subst upt_grid)
  apply (subst upt_grid)
  apply simp
  done

lemma grid_inv_empty: "grid_inv empty_state"
  by (simp add: grid_inv_def empty_state_def)

lemma grid_inv_body:
  assumes "grid_inv s"
  shows "grid_inv (grid_body v x y s z)"
proof (cases "cubePositions s (mesh_key (smallCube v x y z))")
  case None
  with assms show ?thesis
    unfolding grid_inv_def grid_body_def Let_def
    by (auto simp: nth_append mesh_key_def simp del: split_paired_All)
next
  case (Some h)
  with assms show ?thesis
    unfolding grid_inv_def grid_body_def Let_def
    by (auto simp: nth_append mesh_key_def simp del: split_paired_All)
qed

lemma grid_inv_build: "grid_inv (build_grid v empty_state)"
proof -
  have inner: "grid_inv s \<Longrightarrow> grid_inv (foldl (grid_body v x y) s zs)" for s x y zs
    by (rule foldl_invariant [where P = grid_inv]) (simp_all add: grid_inv_body)
  have middle: "grid_inv s \<Longrightarrow> grid_inv (foldl (\<lambda>s y. foldl (grid_body v x y) s zs) s ys)"
    for s x ys zs
    by (rule foldl_invariant [where P = grid_inv]) (simp_all add: inner)
  show ?thesis
    unfolding build_grid_def
    by (rule foldl_invariant [where P = grid_inv]) (simp_all add: grid_inv_empty middle)
qed

lemma grid_inv_startup: "grid_inv (startup v)"
  using grid_inv_build [of v] by (simp add: startup_def Let_def grid_inv_def)

lemma startup_heights_zero: "cubePositions (startup v) k = Some h \<Longrightarrow> h = Num 0"
  using grid_inv_startup [of v] unfolding grid_inv_def by blast

lemma startup_column_height:
  assumes "x < gridSize" "y < gridSize"
  shows "cubePositions (startup v) (positionKey (grid_coord x) (grid_coord y)) = Some (Num 0)"
proof -
  have "0 < gridSize" by (simp add: gridSize_def)
  with assms have "smallCube v x y 0 \<in> set (cubes (startup v))"
    unfolding cubes_startup by (simp add: smallCube_in_grid)
  with grid_inv_startup [of v]
  have "cubePositions (startup v) (mesh_key (smallCube v x y 0)) = Some (Num 0)"
    unfolding grid_inv_def by blast
  then show ?thesis by (simp add: mesh_key_smallCube)
qed


lemma startup_logs:
  "tweens (startup v) = []" "highlightedCubes (startup v) = []" "console (startup v) = []"
  using grid_inv_startup [of v] by (simp_all add: grid_inv_def)

section \<open>The one-column state\<close>

lemma grid_coord_0: "grid_coord 0 = - (11 / 4)"
  by (simp add: grid_coord_def gridSize_def cubeSize_def spacing_def)

lemma cubes_column_grid: "cubes (column_grid v) = map (smallCube v 0 0) [0..<gridSize]"
  unfolding column_grid_def
  using foldl_cubes_concat [of "grid_body v 0 0" "\<lambda>z. [smallCube v 0 0 z]" empty_state "[0..<gridSize]"]
  by (simp add: cubes_grid_body empty_state_def)

lemma grid_inv_column: "grid_inv (column_grid v)"
  unfolding column_grid_def
  by (rule foldl_invariant [where P = grid_inv]) (simp_all add: grid_inv_body grid_inv_empty)

lemma column_grid_nth: "z < gridSize \<Longrightarrow> cubes (column_grid v) ! z = smallCube v 0 0 z"
  by (simp add: cubes_column_grid)

lemma column_grid_height:
  "cubePositions (column_grid v) (positionKey (grid_coord 0) (grid_coord 0)) = Some (Num 0)"
proof -
  have "smallCube v 0 0 0 \<in> set (cubes (column_grid v))"
    by (simp add: cubes_column_grid gridSize_def)
  with grid_inv_column [of v]
  have "cubePositions (column_grid v) (mesh_key (smallCube v 0 0 0)) = Some (Num 0)"
    unfolding grid_inv_def by blast
  then show ?thesis by (simp add: mesh_key_smallCube)
qed

section \<open>Variant B: the right click\<close>

text \<open>
  Claim C9. In variant B a press of the secondary button (button 2) changes nothing: the
  listener returns the very state it was given, so the tracked cubes with their positions
  and materials, the stack heights and the highlighted set are all as before.
\<close>

theorem right_click_B_no_effect:
  "mousedownB s 2 intersects = s \<and> stepB s (MouseDown 2 intersects) = s"
  by (simp add: mousedownB_def)

section \<open>Variant A: clicking a textured cube\<close>

text \<open>
  Claim C3. In variant A a click that hits a cube whose \<open>textured\<close> flag is set returns the
  state unchanged (material, position, stack height and animation log included), and
  clicking the same cube twice gives the same state as clicking it once.
\<close>

theorem click_textured_A_idempotent:
  "(i < length (cubes s) \<and> textured (cubes s ! i) \<longrightarrow>
      onCubeClickA s (i # rest) = s \<and> mousedownA s 0 (i # rest) = (None, s)) \<and>
   onCubeClickA (onCubeClickA s (i # rest)) (i # rest) = onCubeClickA s (i # rest)"
  by (simp add: onCubeClickA_def mousedownA_def Let_def gsap_fromTo_def set_z_def)

theorem click_textured_A_idempotent_witness:
  "0 < length (cubes (onCubeClickA (column_grid VariantA) [0])) \<and>
   textured (cubes (onCubeClickA (column_grid VariantA) [0]) ! 0) \<and>
   onCubeClickA (onCubeClickA (column_grid VariantA) [0]) [0] = onCubeClickA (column_grid VariantA) [0] \<and>
   mousedownA (onCubeClickA (column_grid VariantA) [0]) 0 [0]
     = (None, onCubeClickA (column_grid VariantA) [0])"
proof -
  have len: "0 < length (cubes (onCubeClickA (column_grid VariantA) [0]))"
    by (simp add: onCubeClickA_def Let_def gsap_fromTo_def set_z_def cubes_column_grid gridSize_def)
  have tex: "textured (cubes (onCubeClickA (column_grid VariantA) [0]) ! 0)"
    by (simp add: onCubeClickA_def Let_def gsap_fromTo_def set_z_def cubes_column_grid
        gridSize_def smallCube_def upt_conv_Cons)
  from click_textured_A_idempotent [of 0 "onCubeClickA (column_grid VariantA) [0]" "[]"] len tex
  show ?thesis by simp
qed

section \<open>The click handler of variant B, case by case\<close>

lemma currentZ_B_key: "currentZ_B s c = or_zero (cubePositions s (mesh_key c))"
  by (simp add: currentZ_B_def mesh_key_def Let_def)

lemma currentZ_A_key: "currentZ_A s c = cubePositions s (mesh_key c)"
  by (simp add: currentZ_A_def mesh_key_def Let_def)

lemma onCubeClickB_place:
  assumes "i < length (cubes s)" "js_lt (currentZ_B s (cubes s ! i)) (Num (of_nat gridSize))"
  shows "onCubeClickB s (i # rest) =
    s\<lparr>scene := scene s @ [SceneMesh (length (cubes s))],
      cubes := cubes s @ [spawnedCube (cubes s ! i)],
      tweens := tweens s @ [FromTo (length (cubes s)) dropStart
                  (constrainedZPosition (newZPositionB (currentZ_B s (cubes s ! i)))) (3 / 2) ''bounce.out''],
      cubePositions := (cubePositions s)(mesh_key (cubes s ! i) \<mapsto> js_add (currentZ_B s (cubes s ! i)) (Num 1))\<rparr>"
  using assms
  by (simp add: onCubeClickB_def Let_def gsap_fromTo_def set_z_def spawnedCube_def mesh_key_def
      currentZ_B_def)

lemma onCubeClickB_full:
  assumes "i < length (cubes s)" "\<not> js_lt (currentZ_B s (cubes s ! i)) (Num (of_nat gridSize))"
  shows "onCubeClickB s (i # rest) =
    s\<lparr>console := console s @ [''Stack is full, cannot place any more cubes here.'']\<rparr>"
  using assms by (simp add: onCubeClickB_def Let_def)

lemma onCubeClickB_miss:
  "onCubeClickB s [] = s" "\<not> i < length (cubes s) \<Longrightarrow> onCubeClickB s (i # rest) = s"
  by (simp_all add: onCubeClickB_def)

section \<open>Variant B: clicking a full column\<close>

text \<open>
  Claim C2. In variant B a click that hits a cube whose column already has stack height
  \<open>gridSize\<close> only appends the notice to the console: no cube is created, the scene and the
  tracked list are unchanged, the counter is unchanged and no animation is scheduled.
\<close>

theorem click_full_stack_B:
  assumes "i < length (cubes s)"
    and "cubePositions s (mesh_key (cubes s ! i)) = Some (Num (of_nat gridSize))"
  shows "onCubeClickB s (i # rest)
           = s\<lparr>console := console s @ [''Stack is full, cannot place any more cubes here.'']\<rparr> \<and>
         cubes (onCubeClickB s (i # rest)) = cubes s \<and>
         scene (onCubeClickB s (i # rest)) = scene s \<and>
         cubePositions (onCubeClickB s (i # rest)) = cubePositions s \<and>
         tweens (onCubeClickB s (i # rest)) = tweens s \<and>
         mousedownB s 0 (i # rest) = onCubeClickB s (i # rest)"
proof -
  have "\<not> js_lt (currentZ_B s (cubes s ! i)) (Num (of_nat gridSize))"
    using assms(2) by (simp add: currentZ_B_key gridSize_def)
  from onCubeClickB_full [OF assms(1) this] show ?thesis
    by (simp add: mousedownB_def)
qed

lemma full_column_len: "0 < length (cubes full_column)"
  by code_simp

lemma full_column_height:
  "cubePositions full_column (mesh_key (cubes full_column ! 0)) = Some (Num (of_nat gridSize))"
  by code_simp

theorem click_full_stack_B_witness:
  "0 < length (cubes full_column) \<and>
   cubePositions full_column (mesh_key (cubes full_column ! 0)) = Some (Num (of_nat gridSize)) \<and>
   onCubeClickB full_column [0]
     = full_column\<lparr>console := console full_column @ [''Stack is full, cannot place any more cubes here.'']\<rparr> \<and>
   cubes (onCubeClickB full_column [0]) = cubes full_column \<and>
   cubePositions (onCubeClickB full_column [0]) = cubePositions full_column \<and>
   tweens (onCubeClickB full_column [0]) = tweens full_column"
  using click_full_stack_B [OF full_column_len full_column_height, of "[]"] full_column_len full_column_height
  by simp

section \<open>The click handler of variant A, case by case\<close>

lemma onCubeClickA_place:
  assumes "i < length (cubes s)" "\<not> textured (cubes s ! i)"
  shows "onCubeClickA s (i # rest) =
    s\<lparr>cubes := (cubes s)[i := revealedCube (cubes s ! i)],
      tweens := tweens s @ [FromTo i dropStart
                  (constrainedZPosition (newZPositionA (to_number (currentZ_A s (cubes s ! i)))))
                  (3 / 2) ''bounce.out''],
      cubePositions := (cubePositions s)
         (mesh_key (cubes s ! i) \<mapsto> js_add (to_number (currentZ_A s (cubes s ! i))) (Num 1))\<rparr>"
  using assms
  by (simp add: onCubeClickA_def Let_def gsap_fromTo_def set_z_def revealedCube_def mesh_key_def
      currentZ_A_def)


section \<open>The drop target\<close>

lemma constants: "gridSize = 10" "cubeSize = 1 / 2" "spacing = 1 / 20"
  "boundaryMin = - (11 / 4)" "boundaryMax = 11 / 5" "dropStart = Num (11 / 4)"
  by (simp_all add: gridSize_def cubeSize_def spacing_def boundaryMin_def boundaryMax_def dropStart_def)

lemma newZPositionA_Num:
  "newZPositionA (Num h) = Num (h * (cubeSize + spacing) - (of_nat gridSize / 2) * (cubeSize + spacing))"
  by (simp add: newZPositionA_def)

lemma newZPositionB_Num:
  "newZPositionB (Num h) = Num ((h + 1) * (cubeSize + spacing) - (of_nat gridSize / 2) * (cubeSize + spacing))"
  by (simp add: newZPositionB_def)

lemma constrainedZPosition_Num:
  "constrainedZPosition (Num t) = Num (min boundaryMax (max boundaryMin t))"
  by (simp add: constrainedZPosition_def)

lemma clamp_bounds:
  "boundaryMin \<le> min boundaryMax (max boundaryMin t)" "min boundaryMax (max boundaryMin t) \<le> boundaryMax"
  by (simp_all add: constants)

text \<open>
  Claim C5. For a column of height \<open>h\<close> the target before clamping is
  \<open>h * (cubeSize + spacing) - (gridSize / 2) * (cubeSize + spacing)\<close> in variant A and the same
  with \<open>h + 1\<close> in variant B; the target is then clamped to \<open>[boundaryMin, boundaryMax]\<close>, with
  \<open>boundaryMin = - (gridSize / 2) * (cubeSize + spacing)\<close> and
  \<open>boundaryMax = (gridSize / 2 - 1) * (cubeSize + spacing)\<close>; a successful click schedules
  exactly the drop to that clamped target. With \<open>gridSize = 10\<close>, \<open>cubeSize = 0.5\<close>,
  \<open>spacing = 0.05\<close> and \<open>h = 0\<close> the target of variant A before clamping is \<open>-2.75\<close>, which is
  \<open>boundaryMin\<close>.
\<close>

theorem drop_target_formula:
  "newZPositionA (Num h)
     = Num (h * (cubeSize + spacing) - (of_nat gridSize / 2) * (cubeSize + spacing)) \<and>
   newZPositionB (Num h)
     = Num ((h + 1) * (cubeSize + spacing) - (of_nat gridSize / 2) * (cubeSize + spacing)) \<and>
   constrainedZPosition (Num t) = Num (min boundaryMax (max boundaryMin t)) \<and>
   boundaryMin \<le> min boundaryMax (max boundaryMin t) \<and>
   min boundaryMax (max boundaryMin t) \<le> boundaryMax \<and>
   boundaryMin = - (of_nat gridSize / 2) * (cubeSize + spacing) \<and>
   boundaryMax = (of_nat gridSize / 2 - 1) * (cubeSize + spacing) \<and>
   (i < length (cubes s) \<and> \<not> textured (cubes s ! i) \<longrightarrow>
      tweens (onCubeClickA s (i # rest))
        = tweens s @ [FromTo i dropStart
            (constrainedZPosition (newZPositionA (to_number (currentZ_A s (cubes s ! i)))))
            (3 / 2) ''bounce.out'']) \<and>
   (i < length (cubes s) \<and> js_lt (currentZ_B s (cubes s ! i)) (Num (of_nat gridSize)) \<longrightarrow>
      tweens (onCubeClickB s (i # rest))
        = tweens s @ [FromTo (length (cubes s)) dropStart
            (constrainedZPosition (newZPositionB (currentZ_B s (cubes s ! i))))
            (3 / 2) ''bounce.out'']) \<and>
   gridSize = 10 \<and> cubeSize = 0.5 \<and> spacing = 0.05 \<and>
   newZPositionA (Num 0) = Num (- 2.75) \<and> boundaryMin = - 2.75"
proof -
  have a: "i < length (cubes s) \<and> \<not> textured (cubes s ! i) \<longrightarrow>
      tweens (onCubeClickA s (i # rest))
        = tweens s @ [FromTo i dropStart
            (constrainedZPosition (newZPositionA (to_number (currentZ_A s (cubes s ! i)))))
            (3 / 2) ''bounce.out'']"
    by (simp add: onCubeClickA_place)
  have b: "i < length (cubes s) \<and> js_lt (currentZ_B s (cubes s ! i)) (Num (of_nat gridSize)) \<longrightarrow>
      tweens (onCubeClickB s (i # rest))
        = tweens s @ [FromTo (length (cubes s)) dropStart
            (constrainedZPosition (newZPositionB (currentZ_B s (cubes s ! i))))
            (3 / 2) ''bounce.out'']"
    by (simp add: onCubeClickB_place)
  have c: "gridSize = 10 \<and> cubeSize = 0.5 \<and> spacing = 0.05 \<and>
      newZPositionA (Num 0) = Num (- 2.75) \<and> boundaryMin = - 2.75"
    by (simp add: newZPositionA_Num constants)
  show ?thesis
    using a b c newZPositionA_Num newZPositionB_Num constrainedZPosition_Num clamp_bounds
      boundaryMin_def boundaryMax_def
    by blast
qed

lemma column_grid_untextured0: "\<not> textured (cubes (column_grid v) ! 0)"
  by (simp add: column_grid_nth gridSize_def textured_smallCube)

lemma column_grid_len: "0 < length (cubes (column_grid v))"
  by (simp add: cubes_column_grid gridSize_def)

lemma column_grid_currentZ_B: "currentZ_B (column_grid v) (cubes (column_grid v) ! 0) = Num 0"
  by (simp add: currentZ_B_key column_grid_nth gridSize_def mesh_key_smallCube column_grid_height)

lemma column_grid_currentZ_A: "currentZ_A (column_grid v) (cubes (column_grid v) ! 0) = Some (Num 0)"
  by (simp add: currentZ_A_key column_grid_nth gridSize_def mesh_key_smallCube column_grid_height)

lemma targetA_0: "constrainedZPosition (newZPositionA (Num 0)) = Num (- 2.75)"
  by (simp add: newZPositionA_Num constrainedZPosition_Num constants)

lemma targetB_0: "constrainedZPosition (newZPositionB (Num 0)) = Num (- 2.2)"
  by (simp add: newZPositionB_Num constrainedZPosition_Num constants)

theorem drop_target_formula_witness:
  "(0 < length (cubes (column_grid VariantA)) \<and> \<not> textured (cubes (column_grid VariantA) ! 0) \<and>
    tweens (onCubeClickA (column_grid VariantA) [0])
      = tweens (column_grid VariantA) @ [FromTo 0 dropStart (Num (- 2.75)) (3 / 2) ''bounce.out'']) \<and>
   (0 < length (cubes (column_grid VariantB)) \<and>
    js_lt (currentZ_B (column_grid VariantB) (cubes (column_grid VariantB) ! 0)) (Num (of_nat gridSize)) \<and>
    tweens (onCubeClickB (column_grid VariantB) [0])
      = tweens (column_grid VariantB)
          @ [FromTo (length (cubes (column_grid VariantB))) dropStart (Num (- 2.2)) (3 / 2) ''bounce.out''])"
proof -
  have lt: "js_lt (currentZ_B (column_grid VariantB) (cubes (column_grid VariantB) ! 0)) (Num (of_nat gridSize))"
    by (simp add: column_grid_currentZ_B gridSize_def)
  have a: "tweens (onCubeClickA (column_grid VariantA) [0])
      = tweens (column_grid VariantA) @ [FromTo 0 dropStart
            (constrainedZPosition (newZPositionA (to_number
               (currentZ_A (column_grid VariantA) (cubes (column_grid VariantA) ! 0)))))
            (3 / 2) ''bounce.out'']"
    using drop_target_formula [of 0 0 0 "column_grid VariantA" "[]"]
      column_grid_len [of VariantA] column_grid_untextured0 [of VariantA] by blast
  have b: "tweens (onCubeClickB (column_grid VariantB) [0])
      = tweens (column_grid VariantB) @ [FromTo (length (cubes (column_grid VariantB))) dropStart
            (constrainedZPosition (newZPositionB
               (currentZ_B (column_grid VariantB) (cubes (column_grid VariantB) ! 0))))
            (3 / 2) ''bounce.out'']"
    using drop_target_formula [of 0 0 0 "column_grid VariantB" "[]"]
      column_grid_len [of VariantB] lt by blast
  from a have a': "tweens (onCubeClickA (column_grid VariantA) [0])
      = tweens (column_grid VariantA) @ [FromTo 0 dropStart (Num (- 2.75)) (3 / 2) ''bounce.out'']"
    by (simp only: column_grid_currentZ_A to_number.simps targetA_0)
  from b have b': "tweens (onCubeClickB (column_grid VariantB) [0])
      = tweens (column_grid VariantB)
          @ [FromTo (length (cubes (column_grid VariantB))) dropStart (Num (- 2.2)) (3 / 2) ''bounce.out'']"
    by (simp only: column_grid_currentZ_B targetB_0)
  from a' b' lt column_grid_len column_grid_untextured0 show ?thesis
    by blast
qed

lemma drop_target_B_lower:
  assumes "0 \<le> h"
  shows "\<exists>t. constrainedZPosition (newZPositionB (Num h)) = Num t \<and> boundaryMin + (cubeSize + spacing) \<le> t"
proof -
  have "boundaryMin + (cubeSize + spacing)
      \<le> min boundaryMax (max boundaryMin ((h + 1) * (cubeSize + spacing) - (of_nat gridSize / 2) * (cubeSize + spacing)))"
    using assms unfolding constants by (simp add: field_simps)
  then show ?thesis
    by (simp add: newZPositionB_Num constrainedZPosition_Num)
qed

section \<open>Variant B: the column highlighter\<close>

lemma length_set_emissive [simp]: "length (set_emissive i hex cs) = length cs"
  by (simp add: set_emissive_def)

lemma nth_set_emissive:
  "j < length cs \<Longrightarrow> set_emissive i hex cs ! j = (if j = i then with_emissive hex (cs ! j) else cs ! j)"
  by (simp add: set_emissive_def with_emissive_def nth_list_update)

lemma with_emissive_twice [simp]: "with_emissive hex (with_emissive hex' c) = with_emissive hex c"
  by (simp add: with_emissive_def)

lemma position_with_emissive [simp]: "position (with_emissive hex c) = position c"
  by (simp add: with_emissive_def)

lemma textured_with_emissive [simp]: "textured (with_emissive hex c) = textured c"
  by (simp add: with_emissive_def)

lemma emissive_with_emissive [simp]: "emissive (material (with_emissive hex c)) = hex"
  by (simp add: with_emissive_def)

lemma same_column_with_emissive [simp]:
  "same_column tx ty (with_emissive hex c) = same_column tx ty c"
  by (simp add: same_column_def)

lemma length_tinted [simp]: "length (tinted hex P cs) = length cs"
  by (simp add: tinted_def)

lemma nth_tinted:
  "j < length cs \<Longrightarrow> tinted hex P cs ! j = (if P j then with_emissive hex (cs ! j) else cs ! j)"
  by (simp add: tinted_def)

lemma tinted_none: "tinted hex (\<lambda>j. False) cs = cs"
  by (simp add: tinted_def map_nth)

lemma clear_loop:
  "foldl (\<lambda>cs j. set_emissive j hex cs) cs js = tinted hex (\<lambda>j. j \<in> set js) cs"
proof (induction js arbitrary: cs)
  case Nil
  show ?case by (simp add: tinted_none)
next
  case (Cons a js)
  have "tinted hex (\<lambda>j. j \<in> set js) (set_emissive a hex cs) = tinted hex (\<lambda>j. j \<in> set (a # js)) cs"
    by (rule nth_equalityI) (auto simp: nth_tinted nth_set_emissive)
  with Cons show ?case by simp
qed

lemma highlight_step_eq:
  assumes "a < length (cubes s)"
  shows "highlight_step tx ty s a =
     s\<lparr>cubes := tinted 0xff0000 (\<lambda>j. j = a \<and> same_column tx ty (cubes s ! j)) (cubes s),
       highlightedCubes := highlightedCubes s @ filter (\<lambda>j. same_column tx ty (cubes s ! j)) [a]\<rparr>"
proof -
  have 1: "same_column tx ty (cubes s ! a) \<Longrightarrow>
      set_emissive a 0xff0000 (cubes s) = tinted 0xff0000 (\<lambda>j. j = a \<and> same_column tx ty (cubes s ! j)) (cubes s)"
    by (rule nth_equalityI) (auto simp: nth_tinted nth_set_emissive)
  have 2: "\<not> same_column tx ty (cubes s ! a) \<Longrightarrow>
      tinted 0xff0000 (\<lambda>j. j = a \<and> same_column tx ty (cubes s ! j)) (cubes s) = cubes s"
    by (rule nth_equalityI) (auto simp: nth_tinted)
  show ?thesis
    using 1 2 by (simp add: highlight_step_def)
qed

lemma highlight_loop:
  assumes "\<forall>j\<in>set js. j < length (cubes s)"
  shows "foldl (highlight_step tx ty) s js =
     s\<lparr>cubes := tinted 0xff0000 (\<lambda>j. j \<in> set js \<and> same_column tx ty (cubes s ! j)) (cubes s),
       highlightedCubes := highlightedCubes s @ filter (\<lambda>j. same_column tx ty (cubes s ! j)) js\<rparr>"
  using assms
proof (induction js arbitrary: s)
  case Nil
  show ?case by (simp add: tinted_none)
next
  case (Cons a js)
  let ?s1 = "highlight_step tx ty s a"
  let ?P = "\<lambda>j. same_column tx ty (cubes s ! j)"
  from Cons.prems have a: "a < length (cubes s)" and js: "\<forall>j\<in>set js. j < length (cubes s)"
    by simp_all
  have s1: "?s1 = s\<lparr>cubes := tinted 0xff0000 (\<lambda>j. j = a \<and> ?P j) (cubes s),
       highlightedCubes := highlightedCubes s @ filter ?P [a]\<rparr>"
    by (rule highlight_step_eq [OF a])
  have same: "j < length (cubes s) \<Longrightarrow> same_column tx ty (cubes ?s1 ! j) = ?P j" for j
    by (simp add: s1 nth_tinted)
  have len: "length (cubes ?s1) = length (cubes s)"
    by (simp add: s1)
  have filt: "filter (\<lambda>j. same_column tx ty (cubes ?s1 ! j)) js = filter ?P js"
    by (rule filter_cong) (use js same in auto)
  have tint: "tinted 0xff0000 (\<lambda>j. j \<in> set js \<and> same_column tx ty (cubes ?s1 ! j)) (cubes ?s1)
      = tinted 0xff0000 (\<lambda>j. j \<in> set (a # js) \<and> ?P j) (cubes s)"
  proof (rule nth_equalityI)
    show "length (tinted 0xff0000 (\<lambda>j. j \<in> set js \<and> same_column tx ty (cubes ?s1 ! j)) (cubes ?s1))
        = length (tinted 0xff0000 (\<lambda>j. j \<in> set (a # js) \<and> ?P j) (cubes s))"
      by (simp add: len)
  next
    fix j
    assume "j < length (tinted 0xff0000 (\<lambda>j. j \<in> set js \<and> same_column tx ty (cubes ?s1 ! j)) (cubes ?s1))"
    then have j: "j < length (cubes s)" by (simp add: len)
    have "cubes ?s1 ! j = (if j = a \<and> ?P j then with_emissive 0xff0000 (cubes s ! j) else cubes s ! j)"
      using j by (simp add: s1 nth_tinted)
    then show "tinted 0xff0000 (\<lambda>j. j \<in> set js \<and> same_column tx ty (cubes ?s1 ! j)) (cubes ?s1) ! j
        = tinted 0xff0000 (\<lambda>j. j \<in> set (a # js) \<and> ?P j) (cubes s) ! j"
      using j same [OF j] by (auto simp: nth_tinted len)
  qed
  have "foldl (highlight_step tx ty) s (a # js) = foldl (highlight_step tx ty) ?s1 js"
    by simp
  also have "\<dots> = ?s1\<lparr>cubes := tinted 0xff0000 (\<lambda>j. j \<in> set js \<and> same_column tx ty (cubes ?s1 ! j)) (cubes ?s1),
       highlightedCubes := highlightedCubes ?s1 @ filter (\<lambda>j. same_column tx ty (cubes ?s1 ! j)) js\<rparr>"
    by (rule Cons.IH) (use js len in simp)
  also have "\<dots> = s\<lparr>cubes := tinted 0xff0000 (\<lambda>j. j \<in> set (a # js) \<and> ?P j) (cubes s),
       highlightedCubes := highlightedCubes s @ filter ?P (a # js)\<rparr>"
    unfolding filt tint by (simp add: s1)
  finally show ?case .
qed

lemma tinted_cong:
  "(\<And>j. j < length cs \<Longrightarrow> P j = Q j) \<Longrightarrow> tinted hex P cs = tinted hex Q cs"
  by (simp add: tinted_def)

lemma position_nth_tinted [simp]:
  "j < length cs \<Longrightarrow> position (tinted hex P cs ! j) = position (cs ! j)"
  by (simp add: nth_tinted)

lemma same_column_nth_tinted [simp]:
  "j < length cs \<Longrightarrow> same_column tx ty (tinted hex P cs ! j) = same_column tx ty (cs ! j)"
  by (simp add: nth_tinted)

lemma map_position_tinted [simp]: "map position (tinted hex P cs) = map position cs"
  by (rule nth_equalityI) simp_all

lemma map_textured_tinted [simp]: "map textured (tinted hex P cs) = map textured cs"
  by (rule nth_equalityI) (simp_all add: nth_tinted)

lemma onMouseMove_clear:
  "(if highlightedCubes s \<noteq> []
    then s\<lparr>cubes := foldl (\<lambda>cs j. set_emissive j 0x000000 cs) (cubes s) (highlightedCubes s),
           highlightedCubes := []\<rparr>
    else s)
   = s\<lparr>cubes := tinted 0 (\<lambda>j. j \<in> set (highlightedCubes s)) (cubes s), highlightedCubes := []\<rparr>"
  by (simp add: clear_loop tinted_none)

lemma onMouseMove_miss:
  "onMouseMove s [] =
     s\<lparr>cubes := tinted 0 (\<lambda>j. j \<in> set (highlightedCubes s)) (cubes s), highlightedCubes := []\<rparr>"
  unfolding onMouseMove_def onMouseMove_clear by (simp add: Let_def)

lemma onMouseMove_outside:
  "\<not> i < length (cubes s) \<Longrightarrow> onMouseMove s (i # rest) =
     s\<lparr>cubes := tinted 0 (\<lambda>j. j \<in> set (highlightedCubes s)) (cubes s), highlightedCubes := []\<rparr>"
  unfolding onMouseMove_def onMouseMove_clear by (simp add: Let_def)

lemma onMouseMove_hit:
  assumes "i < length (cubes s)"
  shows "onMouseMove s (i # rest) =
     s\<lparr>cubes := tinted 0xff0000
                 (\<lambda>j. same_column (vec_x (position (cubes s ! i))) (vec_y (position (cubes s ! i))) (cubes s ! j))
                 (tinted 0 (\<lambda>j. j \<in> set (highlightedCubes s)) (cubes s)),
       highlightedCubes :=
         filter (\<lambda>j. same_column (vec_x (position (cubes s ! i))) (vec_y (position (cubes s ! i))) (cubes s ! j))
           [0..<length (cubes s)]\<rparr>"
proof -
  let ?cs1 = "tinted 0 (\<lambda>j. j \<in> set (highlightedCubes s)) (cubes s)"
  let ?s1 = "s\<lparr>cubes := ?cs1, highlightedCubes := []\<rparr>"
  let ?tx = "vec_x (position (cubes s ! i))" and ?ty = "vec_y (position (cubes s ! i))"
  have loop: "foldl (highlight_step ?tx ?ty) ?s1 [0..<length (cubes s)] =
     ?s1\<lparr>cubes := tinted 0xff0000 (\<lambda>j. j \<in> set [0..<length (cubes s)] \<and> same_column ?tx ?ty (cubes ?s1 ! j)) (cubes ?s1),
       highlightedCubes := highlightedCubes ?s1 @ filter (\<lambda>j. same_column ?tx ?ty (cubes ?s1 ! j)) [0..<length (cubes s)]\<rparr>"
    by (rule highlight_loop) simp
  have t: "tinted 0xff0000 (\<lambda>j. j \<in> set [0..<length (cubes s)] \<and> same_column ?tx ?ty (cubes ?s1 ! j)) (cubes ?s1)
      = tinted 0xff0000 (\<lambda>j. same_column ?tx ?ty (cubes s ! j)) ?cs1"
    by (simp, rule tinted_cong) simp
  have f: "filter (\<lambda>j. same_column ?tx ?ty (cubes ?s1 ! j)) [0..<length (cubes s)]
      = filter (\<lambda>j. same_column ?tx ?ty (cubes s ! j)) [0..<length (cubes s)]"
    by (rule filter_cong) simp_all
  have "onMouseMove s (i # rest) = foldl (highlight_step ?tx ?ty) ?s1 [0..<length (cubes s)]"
    unfolding onMouseMove_def onMouseMove_clear using assms by (simp add: Let_def)
  then show ?thesis
    unfolding loop t f by simp
qed

text \<open>
  Claim C6. In variant B, after a pointer move that hits a cube, the highlighted set holds
  exactly the tracked cubes whose x and whose y differ from the hit cube's by less than
  \<open>0.001\<close>, each of them tinted with the highlight colour \<open>0xff0000\<close>; a cube that was
  highlighted before and is not in the new set has its tint back at \<open>0x000000\<close>; and after
  a pointer move that hits nothing the highlighted set is empty.
\<close>

theorem highlight_set_B:
  "(i < length (cubes s) \<longrightarrow>
      set (highlightedCubes (onMouseMove s (i # rest)))
        = {j. j < length (cubes s) \<and>
              \<bar>vec_x (position (cubes s ! j)) - vec_x (position (cubes s ! i))\<bar> < 0.001 \<and>
              \<bar>vec_y (position (cubes s ! j)) - vec_y (position (cubes s ! i))\<bar> < 0.001} \<and>
      distinct (highlightedCubes (onMouseMove s (i # rest))) \<and>
      (\<forall>j \<in> set (highlightedCubes (onMouseMove s (i # rest))).
          emissive (material (cubes (onMouseMove s (i # rest)) ! j)) = 0xff0000) \<and>
      (\<forall>j \<in> set (highlightedCubes s).
          j < length (cubes s) \<and> j \<notin> set (highlightedCubes (onMouseMove s (i # rest))) \<longrightarrow>
          emissive (material (cubes (onMouseMove s (i # rest)) ! j)) = 0x000000) \<and>
      map position (cubes (onMouseMove s (i # rest))) = map position (cubes s)) \<and>
   highlightedCubes (onMouseMove s []) = [] \<and>
   (\<forall>j \<in> set (highlightedCubes s).
       j < length (cubes s) \<longrightarrow> emissive (material (cubes (onMouseMove s []) ! j)) = 0x000000) \<and>
   stepB s (MouseMove intersects) = onMouseMove s intersects"
proof -
  have miss: "highlightedCubes (onMouseMove s []) = [] \<and>
     (\<forall>j \<in> set (highlightedCubes s).
       j < length (cubes s) \<longrightarrow> emissive (material (cubes (onMouseMove s []) ! j)) = 0x000000)"
    by (simp add: onMouseMove_miss nth_tinted)
  have hit: "set (highlightedCubes (onMouseMove s (i # rest)))
        = {j. j < length (cubes s) \<and>
              \<bar>vec_x (position (cubes s ! j)) - vec_x (position (cubes s ! i))\<bar> < 0.001 \<and>
              \<bar>vec_y (position (cubes s ! j)) - vec_y (position (cubes s ! i))\<bar> < 0.001} \<and>
      distinct (highlightedCubes (onMouseMove s (i # rest))) \<and>
      (\<forall>j \<in> set (highlightedCubes (onMouseMove s (i # rest))).
          emissive (material (cubes (onMouseMove s (i # rest)) ! j)) = 0xff0000) \<and>
      (\<forall>j \<in> set (highlightedCubes s).
          j < length (cubes s) \<and> j \<notin> set (highlightedCubes (onMouseMove s (i # rest))) \<longrightarrow>
          emissive (material (cubes (onMouseMove s (i # rest)) ! j)) = 0x000000) \<and>
      map position (cubes (onMouseMove s (i # rest))) = map position (cubes s)"
    if i: "i < length (cubes s)"
  proof (intro conjI)
    show "set (highlightedCubes (onMouseMove s (i # rest)))
        = {j. j < length (cubes s) \<and>
              \<bar>vec_x (position (cubes s ! j)) - vec_x (position (cubes s ! i))\<bar> < 0.001 \<and>
              \<bar>vec_y (position (cubes s ! j)) - vec_y (position (cubes s ! i))\<bar> < 0.001}"
      by (auto simp: onMouseMove_hit [OF i] same_column_def)
    show "distinct (highlightedCubes (onMouseMove s (i # rest)))"
      by (simp add: onMouseMove_hit [OF i])
    show "\<forall>j \<in> set (highlightedCubes (onMouseMove s (i # rest))).
          emissive (material (cubes (onMouseMove s (i # rest)) ! j)) = 0xff0000"
      by (simp add: onMouseMove_hit [OF i] nth_tinted)
    show "\<forall>j \<in> set (highlightedCubes s).
          j < length (cubes s) \<and> j \<notin> set (highlightedCubes (onMouseMove s (i # rest))) \<longrightarrow>
          emissive (material (cubes (onMouseMove s (i # rest)) ! j)) = 0x000000"
      by (simp add: onMouseMove_hit [OF i] nth_tinted)
    show "map position (cubes (onMouseMove s (i # rest))) = map position (cubes s)"
      by (simp add: onMouseMove_hit [OF i])
  qed
  show ?thesis
    using miss hit by simp
qed

lemma hovered_facts:
  "2 < length (cubes hovered)" "3 < length (cubes hovered)"
  "highlightedCubes hovered = [3]"
  "highlightedCubes (onMouseMove hovered [2]) = [0, 1, 2]"
  "map (\<lambda>c. emissive (material c)) (cubes hovered) = [0, 0, 0, 0xff0000]"
  by code_simp+

theorem highlight_set_B_witness:
  "2 < length (cubes hovered) \<and>
   3 \<in> set (highlightedCubes hovered) \<and> 3 < length (cubes hovered) \<and>
   3 \<notin> set (highlightedCubes (onMouseMove hovered [2])) \<and>
   0 \<in> set (highlightedCubes (onMouseMove hovered [2])) \<and>
   set (highlightedCubes (onMouseMove hovered [2]))
     = {j. j < length (cubes hovered) \<and>
           \<bar>vec_x (position (cubes hovered ! j)) - vec_x (position (cubes hovered ! 2))\<bar> < 0.001 \<and>
           \<bar>vec_y (position (cubes hovered ! j)) - vec_y (position (cubes hovered ! 2))\<bar> < 0.001} \<and>
   emissive (material (cubes (onMouseMove hovered [2]) ! 0)) = 0xff0000 \<and>
   emissive (material (cubes (onMouseMove hovered [2]) ! 3)) = 0x000000 \<and>
   highlightedCubes (onMouseMove hovered []) = [] \<and>
   emissive (material (cubes (onMouseMove hovered []) ! 3)) = 0x000000"
proof -
  note h = highlight_set_B [of 2 hovered "[]" "[]"]
  have new: "3 \<notin> set (highlightedCubes (onMouseMove hovered [2]))"
    "0 \<in> set (highlightedCubes (onMouseMove hovered [2]))"
    by (simp_all add: hovered_facts)
  have old: "3 \<in> set (highlightedCubes hovered)"
    by (simp add: hovered_facts)
  from h hovered_facts(1) have
    "set (highlightedCubes (onMouseMove hovered [2]))
     = {j. j < length (cubes hovered) \<and>
           \<bar>vec_x (position (cubes hovered ! j)) - vec_x (position (cubes hovered ! 2))\<bar> < 0.001 \<and>
           \<bar>vec_y (position (cubes hovered ! j)) - vec_y (position (cubes hovered ! 2))\<bar> < 0.001}"
    by blast
  moreover from h hovered_facts(1) new(2)
  have "emissive (material (cubes (onMouseMove hovered [2]) ! 0)) = 0xff0000"
    by blast
  moreover from h hovered_facts(1,2) new(1) old
  have "emissive (material (cubes (onMouseMove hovered [2]) ! 3)) = 0x000000"
    by blast
  moreover from h have "highlightedCubes (onMouseMove hovered []) = []"
    by blast
  moreover from h hovered_facts(2) old
  have "emissive (material (cubes (onMouseMove hovered []) ! 3)) = 0x000000"
    by blast
  ultimately show ?thesis
    using hovered_facts(1,2) new old by blast
qed

section \<open>The invariant of variant B\<close>

lemma finite_grid_keys: "finite grid_keys"
  by (simp add: grid_keys_def)

lemma card_grid_keys: "card grid_keys \<le> gridSize * gridSize"
proof -
  have "card grid_keys \<le> card ({..<gridSize} \<times> {..<gridSize})"
    unfolding grid_keys_def by (rule card_image_le) simp
  then show ?thesis by simp
qed

lemma grid_key_smallCube:
  "x < gridSize \<Longrightarrow> y < gridSize \<Longrightarrow> mesh_key (smallCube v x y z) \<in> grid_keys"
  unfolding grid_keys_def mesh_key_smallCube by (rule image_eqI [where x = "(x, y)"]) simp_all

lemma mesh_key_position: "mesh_key c = positionKey (vec_x (position c)) (vec_y (position c))"
  by (simp add: mesh_key_def)

lemma map_mesh_key_cong:
  assumes "map position cs' = map position cs"
  shows "map mesh_key cs' = map mesh_key cs"
proof -
  have "map mesh_key cs' = map (\<lambda>p. positionKey (vec_x p) (vec_y p)) (map position cs')"
    by (simp add: mesh_key_def comp_def)
  also have "\<dots> = map mesh_key cs"
    unfolding assms by (simp add: mesh_key_def comp_def)
  finally show ?thesis .
qed

lemma length_set_z [simp]: "length (set_z i z cs) = length cs"
  by (simp add: set_z_def)

lemma nth_set_z:
  "j < length cs \<Longrightarrow> set_z i z cs ! j
     = (if j = i then (cs ! j)\<lparr>position := (position (cs ! j))\<lparr>vec_z := z\<rparr>\<rparr> else cs ! j)"
  by (simp add: set_z_def nth_list_update)

lemma map_mesh_key_set_z [simp]: "map mesh_key (set_z i z cs) = map mesh_key cs"
  by (rule nth_equalityI) (auto simp: nth_set_z mesh_key_def)

lemma map_textured_set_z [simp]: "map textured (set_z i z cs) = map textured cs"
  by (rule nth_equalityI) (auto simp: nth_set_z)

lemma map_mesh_key_tinted [simp]: "map mesh_key (tinted hex P cs) = map mesh_key cs"
  by (rule map_mesh_key_cong) simp

lemma invB_startup: "invB (startup VariantB)"
proof -
  have 1: "\<forall>k h. cubePositions (startup VariantB) k = Some h \<longrightarrow> (\<exists>n\<le>gridSize. h = Num (of_nat n))"
  proof (intro allI impI)
    fix k h assume "cubePositions (startup VariantB) k = Some h"
    then have "h = Num (of_nat 0)" by (simp add: startup_heights_zero)
    then show "\<exists>n\<le>gridSize. h = Num (of_nat n)" by blast
  qed
  have 4: "set (map mesh_key (cubes (startup VariantB))) \<subseteq> grid_keys"
  proof
    fix k assume "k \<in> set (map mesh_key (cubes (startup VariantB)))"
    then obtain c where c: "c \<in> set (grid_cubes VariantB)" and k: "k = mesh_key c"
      by (auto simp: cubes_startup)
    from c obtain x y z where "c = smallCube VariantB x y z" "x < gridSize" "y < gridSize"
      by (rule grid_cubes_cases)
    with k show "k \<in> grid_keys" by (simp add: grid_key_smallCube)
  qed
  have h0: "height_of (cubePositions (startup VariantB) k) = 0" for k
    by (cases "cubePositions (startup VariantB) k") (auto dest: startup_heights_zero)
  have 5: "length (tweens (startup VariantB)) = (\<Sum>k\<in>grid_keys. height_of (cubePositions (startup VariantB) k))"
    by (simp add: startup_logs h0)
  have 6: "\<forall>k\<in>grid_keys. cubePositions (startup VariantB) k \<noteq> None"
    unfolding grid_keys_def by (auto simp: startup_column_height)
  show ?thesis
    unfolding invB_def using 1 4 5 6 by (simp add: startup_logs cubes_startup length_grid_cubes)
qed

lemma invB_frame:
  assumes "invB s"
  shows "invB (s\<lparr>cubes := set_z i z (cubes s)\<rparr>)"
  using assms unfolding invB_def by simp

lemma invB_tinted:
  assumes "invB s"
  shows "invB (s\<lparr>cubes := tinted hex P (tinted hex' Q (cubes s)), highlightedCubes := hl\<rparr>)"
    and "invB (s\<lparr>cubes := tinted hex P (cubes s), highlightedCubes := hl\<rparr>)"
  using assms unfolding invB_def by simp_all

lemma invB_onMouseMove:
  assumes "invB s"
  shows "invB (onMouseMove s intersects)"
proof (cases intersects)
  case Nil
  with assms show ?thesis by (simp add: onMouseMove_miss invB_tinted)
next
  case (Cons i rest)
  with assms show ?thesis
    by (cases "i < length (cubes s)") (simp_all add: onMouseMove_hit onMouseMove_outside invB_tinted)
qed

lemma invB_console:
  assumes "invB s"
  shows "invB (s\<lparr>console := c\<rparr>)"
  using assms unfolding invB_def by simp

lemma currentZ_B_nat:
  assumes "invB s"
  obtains n where "n \<le> gridSize" "currentZ_B s c = Num (of_nat n)"
    "height_of (cubePositions s (mesh_key c)) = n"
proof (cases "cubePositions s (mesh_key c)")
  case None
  then have "currentZ_B s c = Num (of_nat 0)" "height_of (cubePositions s (mesh_key c)) = 0"
    by (simp_all add: currentZ_B_key)
  with that [of 0] show thesis by simp
next
  case (Some h)
  with assms obtain n where n: "n \<le> gridSize" "h = Num (of_nat n)"
    unfolding invB_def by blast
  with Some have "currentZ_B s c = Num (of_nat n)" "height_of (cubePositions s (mesh_key c)) = n"
    by (simp_all add: currentZ_B_key)
  with n that show thesis by blast
qed

lemma sum_height_update:
  assumes "finite K" "k \<in> K" "height_of (m k) = n"
  shows "(\<Sum>k'\<in>K. height_of ((m(k \<mapsto> Num (of_nat (Suc n)))) k')) = Suc (\<Sum>k'\<in>K. height_of (m k'))"
proof -
  have "(\<Sum>k'\<in>K. height_of ((m(k \<mapsto> Num (of_nat (Suc n)))) k'))
      = height_of (Some (Num (of_nat (Suc n)))) + (\<Sum>k'\<in>K - {k}. height_of ((m(k \<mapsto> Num (of_nat (Suc n)))) k'))"
    using assms(1,2) by (simp add: sum.remove)
  also have "(\<Sum>k'\<in>K - {k}. height_of ((m(k \<mapsto> Num (of_nat (Suc n)))) k')) = (\<Sum>k'\<in>K - {k}. height_of (m k'))"
    by (rule sum.cong) auto
  also have "height_of (Some (Num (of_nat (Suc n)))) = Suc (height_of (m k))"
    using assms(3) by simp
  finally show ?thesis
    using assms(1,2) by (simp add: sum.remove)
qed

lemma invB_place:
  assumes inv: "invB s" and i: "i < length (cubes s)"
    and lt: "js_lt (currentZ_B s (cubes s ! i)) (Num (of_nat gridSize))"
  shows "invB (onCubeClickB s (i # rest))"
proof -
  let ?c = "cubes s ! i"
  let ?N = "gridSize * gridSize * gridSize"
  from inv obtain n where n: "n \<le> gridSize" "currentZ_B s ?c = Num (of_nat n)"
    "height_of (cubePositions s (mesh_key ?c)) = n"
    by (rule currentZ_B_nat)
  from lt n have n_lt: "n < gridSize" by simp
  obtain t where t: "constrainedZPosition (newZPositionB (Num (of_nat n))) = Num t"
    "boundaryMin + (cubeSize + spacing) \<le> t"
    using drop_target_B_lower [of "of_nat n"] by auto
  have key: "mesh_key ?c \<in> grid_keys"
  proof -
    from i have "mesh_key ?c \<in> set (map mesh_key (cubes s))" by simp
    moreover from inv have "set (map mesh_key (cubes s)) \<subseteq> grid_keys"
      unfolding invB_def by blast
    ultimately show ?thesis by blast
  qed
  have eq: "onCubeClickB s (i # rest) =
    s\<lparr>scene := scene s @ [SceneMesh (length (cubes s))],
      cubes := cubes s @ [spawnedCube ?c],
      tweens := tweens s @ [FromTo (length (cubes s)) dropStart (Num t) (3 / 2) ''bounce.out''],
      cubePositions := (cubePositions s)(mesh_key ?c \<mapsto> Num (of_nat (Suc n)))\<rparr>"
    by (simp add: onCubeClickB_place [OF i lt] n t add.commute)
  have len: "length (cubes s) = ?N + length (tweens s)"
    using inv unfolding invB_def by blast
  have 1: "\<forall>k h. ((cubePositions s)(mesh_key ?c \<mapsto> Num (of_nat (Suc n)))) k = Some h
      \<longrightarrow> (\<exists>n\<le>gridSize. h = Num (of_nat n))"
  proof (intro allI impI)
    fix k h
    assume a: "((cubePositions s)(mesh_key ?c \<mapsto> Num (of_nat (Suc n)))) k = Some h"
    show "\<exists>n\<le>gridSize. h = Num (of_nat n)"
    proof (cases "k = mesh_key ?c")
      case True
      with a have "h = Num (of_nat (Suc n))" by simp
      with n_lt show ?thesis by (metis Suc_leI)
    next
      case False
      with a have "cubePositions s k = Some h" by simp
      with inv show ?thesis unfolding invB_def by blast
    qed
  qed
  have 3: "\<forall>j<length (tweens s @ [FromTo (length (cubes s)) dropStart (Num t) (3 / 2) ''bounce.out'']).
      \<exists>t'. (tweens s @ [FromTo (length (cubes s)) dropStart (Num t) (3 / 2) ''bounce.out'']) ! j
          = FromTo (?N + j) dropStart (Num t') (3 / 2) ''bounce.out''
        \<and> boundaryMin + (cubeSize + spacing) \<le> t'"
  proof (intro allI impI)
    fix j
    assume "j < length (tweens s @ [FromTo (length (cubes s)) dropStart (Num t) (3 / 2) ''bounce.out''])"
    then consider "j < length (tweens s)" | "j = length (tweens s)" by fastforce
    then show "\<exists>t'. (tweens s @ [FromTo (length (cubes s)) dropStart (Num t) (3 / 2) ''bounce.out'']) ! j
          = FromTo (?N + j) dropStart (Num t') (3 / 2) ''bounce.out''
        \<and> boundaryMin + (cubeSize + spacing) \<le> t'"
    proof cases
      case 1
      with inv show ?thesis unfolding invB_def by (simp add: nth_append)
    next
      case 2
      with t(2) len show ?thesis by (simp add: nth_append)
    qed
  qed
  have 4: "set (map mesh_key (cubes s @ [spawnedCube ?c])) \<subseteq> grid_keys"
  proof -
    have "mesh_key (spawnedCube ?c) = mesh_key ?c"
      by (simp add: mesh_key_def spawnedCube_def)
    with key inv show ?thesis unfolding invB_def by simp
  qed
  have 5: "length (tweens s @ [FromTo (length (cubes s)) dropStart (Num t) (3 / 2) ''bounce.out''])
      = (\<Sum>k\<in>grid_keys. height_of (((cubePositions s)(mesh_key ?c \<mapsto> Num (of_nat (Suc n)))) k))"
  proof -
    have "length (tweens s) = (\<Sum>k\<in>grid_keys. height_of (cubePositions s k))"
      using inv unfolding invB_def by blast
    then show ?thesis
      using sum_height_update [of grid_keys "mesh_key ?c" "cubePositions s" n]
        finite_grid_keys key n(3) by simp
  qed
  have 6: "\<forall>k\<in>grid_keys. ((cubePositions s)(mesh_key ?c \<mapsto> Num (of_nat (Suc n)))) k \<noteq> None"
    using inv unfolding invB_def by simp
  show ?thesis
    unfolding eq invB_def using 1 3 4 5 6 len by simp
qed

lemma invB_onCubeClickB:
  assumes "invB s"
  shows "invB (onCubeClickB s intersects)"
proof (cases intersects)
  case Nil
  with assms show ?thesis by (simp add: onCubeClickB_miss)
next
  case (Cons i rest)
  show ?thesis
  proof (cases "i < length (cubes s)")
    case False
    with assms Cons show ?thesis by (simp add: onCubeClickB_miss)
  next
    case True
    show ?thesis
    proof (cases "js_lt (currentZ_B s (cubes s ! i)) (Num (of_nat gridSize))")
      case True
      with assms \<open>i < length (cubes s)\<close> Cons show ?thesis by (simp add: invB_place)
    next
      case False
      with assms \<open>i < length (cubes s)\<close> Cons show ?thesis
        by (simp add: onCubeClickB_full invB_console)
    qed
  qed
qed

lemma invB_stepB:
  assumes "invB s"
  shows "invB (stepB s e)"
proof (cases e)
  case (MouseDown button intersects)
  with assms show ?thesis by (simp add: mousedownB_def invB_onCubeClickB)
next
  case (MouseMove intersects)
  with assms show ?thesis by (simp add: invB_onMouseMove)
next
  case (Frame i z)
  with assms show ?thesis by (simp add: invB_frame)
qed

lemma reachableB_invB: "reachableB s \<Longrightarrow> invB s"
  by (induction rule: reachableB.induct) (simp_all add: invB_startup invB_stepB)

section \<open>Consequences of the invariant of variant B\<close>

lemma height_of_nat [simp]: "height_of (Some (Num (of_nat n))) = n"
  by simp

lemma invB_height_le:
  assumes "invB s"
  shows "height_of (cubePositions s k) \<le> gridSize"
proof (cases "cubePositions s k")
  case None
  then show ?thesis by simp
next
  case (Some h)
  with assms obtain n where "n \<le> gridSize" "h = Num (of_nat n)"
    unfolding invB_def by blast
  with Some show ?thesis by simp
qed

lemma reachableB_bound:
  assumes "reachableB s"
  shows "length (cubes s) \<le> 2 * (gridSize * gridSize * gridSize)"
proof -
  from assms have inv: "invB s" by (rule reachableB_invB)
  have "(\<Sum>k\<in>grid_keys. height_of (cubePositions s k)) \<le> of_nat (card grid_keys) * gridSize"
    by (rule sum_bounded_above) (rule invB_height_le [OF inv])
  also have "\<dots> \<le> (gridSize * gridSize) * gridSize"
    using card_grid_keys by simp
  finally have "length (tweens s) \<le> gridSize * gridSize * gridSize"
    using inv unfolding invB_def by simp
  moreover have "length (cubes s) = gridSize * gridSize * gridSize + length (tweens s)"
    using inv unfolding invB_def by blast
  ultimately show ?thesis by simp
qed

lemma startup_first_cube:
  "0 < length (cubes (startup v))" "cubes (startup v) ! 0 = smallCube v 0 0 0"
  "currentZ_B (startup v) (cubes (startup v) ! 0) = Num 0"
  "currentZ_A (startup v) (cubes (startup v) ! 0) = Some (Num 0)"
  "\<not> textured (cubes (startup v) ! 0)"
proof -
  have g: "0 < gridSize" by (simp add: gridSize_def)
  show "0 < length (cubes (startup v))"
    by (simp add: cubes_startup length_grid_cubes g)
  show c: "cubes (startup v) ! 0 = smallCube v 0 0 0"
    by (simp add: cubes_startup grid_cubes_nth0)
  have "cubePositions (startup v) (mesh_key (smallCube v 0 0 0)) = Some (Num 0)"
    unfolding mesh_key_smallCube by (rule startup_column_height) (rule g)+
  then show "currentZ_B (startup v) (cubes (startup v) ! 0) = Num 0"
    "currentZ_A (startup v) (cubes (startup v) ! 0) = Some (Num 0)"
    by (simp_all add: c currentZ_B_key currentZ_A_key)
  show "\<not> textured (cubes (startup v) ! 0)"
    by (simp add: c textured_smallCube)
qed

lemma startup_first_click_ok:
  "js_lt (currentZ_B (startup v) (cubes (startup v) ! 0)) (Num (of_nat gridSize))"
  unfolding startup_first_cube(3) by (simp add: gridSize_def)

lemma settle_drops:
  assumes "\<forall>j<length tws. \<exists>t. tws ! j = FromTo (N + j) d (Num t) dur e \<and> Q t"
    and "N + length tws \<le> length cs"
  shows "length (foldl finish_tween cs tws) = length cs \<and>
     (\<forall>j<length tws. \<exists>t. vec_z (position (foldl finish_tween cs tws ! (N + j))) = Num t \<and> Q t)"
  using assms
proof (induction tws rule: rev_induct)
  case Nil
  show ?case by simp
next
  case (snoc tw tws)
  let ?cs = "foldl finish_tween cs tws"
  have pre: "\<forall>j<length tws. \<exists>t. tws ! j = FromTo (N + j) d (Num t) dur e \<and> Q t"
  proof (intro allI impI)
    fix j assume j: "j < length tws"
    with snoc.prems(1) have "\<exists>t. (tws @ [tw]) ! j = FromTo (N + j) d (Num t) dur e \<and> Q t"
      by simp
    with j show "\<exists>t. tws ! j = FromTo (N + j) d (Num t) dur e \<and> Q t"
      by (simp add: nth_append)
  qed
  from snoc.prems(2) have le: "N + length tws < length cs" by simp
  with snoc.IH pre have len: "length ?cs = length cs"
    and old: "\<forall>j<length tws. \<exists>t. vec_z (position (?cs ! (N + j))) = Num t \<and> Q t"
    by simp_all
  from snoc.prems(1) obtain t where t: "tw = FromTo (N + length tws) d (Num t) dur e" "Q t"
    by (metis length_append_singleton lessI nth_append_length)
  have fin: "foldl finish_tween cs (tws @ [tw]) = set_z (N + length tws) (Num t) ?cs"
    by (simp add: t)
  show ?case
  proof (intro conjI allI impI)
    show "length (foldl finish_tween cs (tws @ [tw])) = length cs"
      unfolding fin by (simp add: len)
  next
    fix j assume "j < length (tws @ [tw])"
    then consider "j < length tws" | "j = length tws" by fastforce
    then show "\<exists>t. vec_z (position (foldl finish_tween cs (tws @ [tw]) ! (N + j))) = Num t \<and> Q t"
    proof cases
      case 1
      with old le len show ?thesis unfolding fin by (simp add: nth_set_z)
    next
      case 2
      with t(2) le len show ?thesis unfolding fin by (simp add: nth_set_z)
    qed
  qed
qed

lemma reachableB_settled:
  assumes "reachableB s" "gridSize * gridSize * gridSize \<le> j" "j < length (cubes s)"
  shows "\<exists>t. vec_z (position (cubes (finish_tweens s) ! j)) = Num t \<and> boundaryMin + (cubeSize + spacing) \<le> t"
proof -
  let ?N = "gridSize * gridSize * gridSize"
  from assms(1) have inv: "invB s" by (rule reachableB_invB)
  then have len: "length (cubes s) = ?N + length (tweens s)"
    and tws: "\<forall>j<length (tweens s). \<exists>t. tweens s ! j = FromTo (?N + j) dropStart (Num t) (3 / 2) ''bounce.out''
        \<and> boundaryMin + (cubeSize + spacing) \<le> t"
    unfolding invB_def by blast+
  from len have "?N + length (tweens s) \<le> length (cubes s)" by simp
  from settle_drops [OF tws this]
  have *: "\<forall>m<length (tweens s). \<exists>t. vec_z (position (foldl finish_tween (cubes s) (tweens s) ! (?N + m))) = Num t
        \<and> boundaryMin + (cubeSize + spacing) \<le> t"
    by blast
  from assms(2,3) len have "j - ?N < length (tweens s)" "?N + (j - ?N) = j" by simp_all
  with * show ?thesis
    by (metis finish_tweens_def state.select_convs(1) state.surjective state.update_convs(1))
qed

lemma first_click_B:
  "reachableB (stepB (startup VariantB) (MouseDown 0 [0]))"
  "stepB (startup VariantB) (MouseDown 0 [0]) = onCubeClickB (startup VariantB) [0]"
  "length (cubes (stepB (startup VariantB) (MouseDown 0 [0]))) = Suc (gridSize * gridSize * gridSize)"
proof -
  show "reachableB (stepB (startup VariantB) (MouseDown 0 [0]))"
    by (rule nextB) (rule initB)
  show eq: "stepB (startup VariantB) (MouseDown 0 [0]) = onCubeClickB (startup VariantB) [0]"
    by (simp add: mousedownB_def)
  show "length (cubes (stepB (startup VariantB) (MouseDown 0 [0]))) = Suc (gridSize * gridSize * gridSize)"
    unfolding eq onCubeClickB_place [OF startup_first_cube(1) startup_first_click_ok]
    by (simp add: cubes_startup length_grid_cubes)
qed

section \<open>Variant B: a spawned cube never settles on the base layer\<close>

text \<open>
  Claim C10. In variant B, for every stack height \<open>h \<ge> 0\<close> the clamped drop target for
  \<open>h + 1\<close> is at least \<open>boundaryMin + (cubeSize + spacing)\<close>. Hence the drop that a
  successful click schedules in a reachable state ends at least one layer above the base,
  and so does the settled z coordinate of every spawned cube of a reachable state, when
  the scheduled animations have run to their end; the base layer of the grid lies at
  \<open>boundaryMin\<close>.
\<close>

theorem spawned_cube_above_base:
  "(0 \<le> h \<longrightarrow>
      (\<exists>t. constrainedZPosition (newZPositionB (Num h)) = Num t \<and>
           boundaryMin + (cubeSize + spacing) \<le> t)) \<and>
   (reachableB s \<and> i < length (cubes s) \<and>
      js_lt (currentZ_B s (cubes s ! i)) (Num (of_nat gridSize)) \<longrightarrow>
      (\<exists>t. tweens (onCubeClickB s (i # rest))
             = tweens s @ [FromTo (length (cubes s)) dropStart (Num t) (3 / 2) ''bounce.out''] \<and>
           boundaryMin + (cubeSize + spacing) \<le> t)) \<and>
   (reachableB s \<and> gridSize * gridSize * gridSize \<le> j \<and> j < length (cubes s) \<longrightarrow>
      (\<exists>t. vec_z (position (cubes (finish_tweens s) ! j)) = Num t \<and>
           boundaryMin + (cubeSize + spacing) \<le> t)) \<and>
   vec_z (position (smallCube v x y 0)) = Num boundaryMin"
proof -
  have click: "\<exists>t. tweens (onCubeClickB s (i # rest))
             = tweens s @ [FromTo (length (cubes s)) dropStart (Num t) (3 / 2) ''bounce.out''] \<and>
           boundaryMin + (cubeSize + spacing) \<le> t"
    if r: "reachableB s" and i: "i < length (cubes s)"
      and lt: "js_lt (currentZ_B s (cubes s ! i)) (Num (of_nat gridSize))"
  proof -
    from r have "invB s" by (rule reachableB_invB)
    then obtain n where n: "currentZ_B s (cubes s ! i) = Num (of_nat n)"
      by (rule currentZ_B_nat)
    obtain t where t: "constrainedZPosition (newZPositionB (Num (of_nat n))) = Num t"
      "boundaryMin + (cubeSize + spacing) \<le> t"
      using drop_target_B_lower [of "of_nat n"] by auto
    show ?thesis
      unfolding onCubeClickB_place [OF i lt] n using t by simp
  qed
  have base: "vec_z (position (smallCube v x y 0)) = Num boundaryMin"
    by (simp add: smallCube_def grid_coord_def boundaryMin_def)
  show ?thesis
    using drop_target_B_lower [of h] click reachableB_settled [of s j] base by blast
qed

theorem spawned_cube_above_base_witness:
  "(0::rat) \<le> 0 \<and>
   (\<exists>t. constrainedZPosition (newZPositionB (Num 0)) = Num t \<and> boundaryMin + (cubeSize + spacing) \<le> t) \<and>
   reachableB (startup VariantB) \<and> 0 < length (cubes (startup VariantB)) \<and>
   js_lt (currentZ_B (startup VariantB) (cubes (startup VariantB) ! 0)) (Num (of_nat gridSize)) \<and>
   (\<exists>t. tweens (onCubeClickB (startup VariantB) [0])
          = tweens (startup VariantB)
              @ [FromTo (length (cubes (startup VariantB))) dropStart (Num t) (3 / 2) ''bounce.out''] \<and>
        boundaryMin + (cubeSize + spacing) \<le> t) \<and>
   reachableB (stepB (startup VariantB) (MouseDown 0 [0])) \<and>
   gridSize * gridSize * gridSize < length (cubes (stepB (startup VariantB) (MouseDown 0 [0]))) \<and>
   (\<exists>t. vec_z (position (cubes (finish_tweens (stepB (startup VariantB) (MouseDown 0 [0])))
                            ! (gridSize * gridSize * gridSize))) = Num t \<and>
        boundaryMin + (cubeSize + spacing) \<le> t)"
proof -
  have len: "gridSize * gridSize * gridSize < length (cubes (stepB (startup VariantB) (MouseDown 0 [0])))"
    unfolding first_click_B(3) by simp
  have a: "\<exists>t. constrainedZPosition (newZPositionB (Num 0)) = Num t \<and> boundaryMin + (cubeSize + spacing) \<le> t"
    using spawned_cube_above_base [of 0] by simp
  have b: "\<exists>t. tweens (onCubeClickB (startup VariantB) [0])
          = tweens (startup VariantB)
              @ [FromTo (length (cubes (startup VariantB))) dropStart (Num t) (3 / 2) ''bounce.out''] \<and>
        boundaryMin + (cubeSize + spacing) \<le> t"
    using spawned_cube_above_base [of 0 "startup VariantB" 0 "[]"] initB
      startup_first_cube(1) [of VariantB] startup_first_click_ok [of VariantB]
    by blast
  have c: "\<exists>t. vec_z (position (cubes (finish_tweens (stepB (startup VariantB) (MouseDown 0 [0])))
                            ! (gridSize * gridSize * gridSize))) = Num t \<and>
        boundaryMin + (cubeSize + spacing) \<le> t"
    using spawned_cube_above_base [of 0 "stepB (startup VariantB) (MouseDown 0 [0])" 0 "[]"
        "gridSize * gridSize * gridSize"] first_click_B(1) len
    by blast
  show ?thesis
    using a b c len initB first_click_B(1) startup_first_cube(1) [of VariantB]
      startup_first_click_ok [of VariantB]
    by simp
qed

lemma stepB_keeps_cubes:
  "length (cubes s) \<le> length (cubes (stepB s e)) \<and> (\<exists>more. scene (stepB s e) = scene s @ more)"
proof (cases e)
  case (MouseDown button intersects)
  have "length (cubes s) \<le> length (cubes (onCubeClickB s intersects)) \<and>
      (\<exists>more. scene (onCubeClickB s intersects) = scene s @ more)"
  proof (cases intersects)
    case Nil
    then show ?thesis by (simp add: onCubeClickB_miss)
  next
    case (Cons i rest)
    show ?thesis
    proof (cases "i < length (cubes s)")
      case False
      with Cons show ?thesis by (simp add: onCubeClickB_miss)
    next
      case True
      then show ?thesis
        unfolding Cons
        by (cases "js_lt (currentZ_B s (cubes s ! i)) (Num (of_nat gridSize))")
          (simp_all add: onCubeClickB_place onCubeClickB_full)
    qed
  qed
  with MouseDown show ?thesis by (simp add: mousedownB_def)
next
  case (MouseMove intersects)
  have "length (cubes (onMouseMove s intersects)) = length (cubes s) \<and>
      scene (onMouseMove s intersects) = scene s"
  proof (cases intersects)
    case Nil
    then show ?thesis by (simp add: onMouseMove_miss)
  next
    case (Cons i rest)
    then show ?thesis
      by (cases "i < length (cubes s)") (simp_all add: onMouseMove_hit onMouseMove_outside)
  qed
  with MouseMove show ?thesis by simp
next
  case (Frame i z)
  then show ?thesis by simp
qed

section \<open>Variant B: spawned cubes accumulate\<close>

text \<open>
  Claim C8, amended. In variant B every successful placement appends exactly one new cube
  to the tracked list and to the scene and leaves the clicked cube as it was; no event
  ever shortens the tracked list or the scene. The accumulation is bounded, though: a
  column takes at most \<open>gridSize\<close> placements, so a reachable state tracks at most
  \<open>2 * gridSize ^ 3\<close> cubes, the grid and as many spawned ones.
\<close>

theorem spawned_cubes_accumulate:
  "(i < length (cubes s) \<and> js_lt (currentZ_B s (cubes s ! i)) (Num (of_nat gridSize)) \<longrightarrow>
      cubes (onCubeClickB s (i # rest)) = cubes s @ [spawnedCube (cubes s ! i)] \<and>
      scene (onCubeClickB s (i # rest)) = scene s @ [SceneMesh (length (cubes s))] \<and>
      cubes (onCubeClickB s (i # rest)) ! i = cubes s ! i) \<and>
   length (cubes s) \<le> length (cubes (stepB s e)) \<and>
   (\<exists>more. scene (stepB s e) = scene s @ more) \<and>
   (reachableB s \<longrightarrow> length (cubes s) \<le> 2 * (gridSize * gridSize * gridSize))"
proof -
  have "cubes (onCubeClickB s (i # rest)) = cubes s @ [spawnedCube (cubes s ! i)] \<and>
      scene (onCubeClickB s (i # rest)) = scene s @ [SceneMesh (length (cubes s))] \<and>
      cubes (onCubeClickB s (i # rest)) ! i = cubes s ! i"
    if "i < length (cubes s)" "js_lt (currentZ_B s (cubes s ! i)) (Num (of_nat gridSize))"
    using that by (simp add: onCubeClickB_place nth_append)
  then show ?thesis
    using stepB_keeps_cubes [of s e] reachableB_bound [of s] by blast
qed

theorem spawned_cubes_accumulate_witness:
  "0 < length (cubes (startup VariantB)) \<and>
   js_lt (currentZ_B (startup VariantB) (cubes (startup VariantB) ! 0)) (Num (of_nat gridSize)) \<and>
   cubes (onCubeClickB (startup VariantB) [0])
     = cubes (startup VariantB) @ [spawnedCube (cubes (startup VariantB) ! 0)] \<and>
   scene (onCubeClickB (startup VariantB) [0])
     = scene (startup VariantB) @ [SceneMesh (length (cubes (startup VariantB)))] \<and>
   cubes (onCubeClickB (startup VariantB) [0]) ! 0 = cubes (startup VariantB) ! 0 \<and>
   reachableB (stepB (startup VariantB) (MouseDown 0 [0])) \<and>
   length (cubes (stepB (startup VariantB) (MouseDown 0 [0]))) \<le> 2 * (gridSize * gridSize * gridSize)"
  using spawned_cubes_accumulate [of 0 "startup VariantB" "[]"]
    spawned_cubes_accumulate [of 0 "stepB (startup VariantB) (MouseDown 0 [0])" "[]"]
    startup_first_cube(1) [of VariantB] startup_first_click_ok [of VariantB] first_click_B(1)
  by blast

text \<open>
  Claim C8 as stated fails: the number of tracked cubes does not grow without bound over
  the reachable states.
\<close>

theorem spawned_cubes_bounded: "\<not> (\<forall>N. \<exists>s. reachableB s \<and> N < length (cubes s))"
proof
  assume "\<forall>N. \<exists>s. reachableB s \<and> N < length (cubes s)"
  then obtain s where "reachableB s" "2 * (gridSize * gridSize * gridSize) < length (cubes s)"
    by blast
  with reachableB_bound [of s] show False by simp
qed

section \<open>Variant A: columns, counts and the reset loop\<close>

subsection \<open>Size of a column\<close>







subsection \<open>Counting the textured cubes of a column\<close>






subsection \<open>The reset loop\<close>

lemma resetCube_simps [simp]:
  "position (resetCube c) = position c" "\<not> textured (resetCube c)"
  "map_texture (material (resetCube c)) = None" "opacity (material (resetCube c)) = 1 / 10"
  "resetCube (resetCube c) = resetCube c" "mesh_key (resetCube c) = mesh_key c"
  by (simp_all add: resetCube_def mesh_key_def)






subsection \<open>Letting the animations finish\<close>

lemma length_finish_tween [simp]: "length (finish_tween cs tw) = length cs"
  by (cases tw) simp_all

lemma length_finish [simp]: "length (foldl finish_tween cs tws) = length cs"
  by (induction tws arbitrary: cs) simp_all





section \<open>The invariant of variant A\<close>








lemma mesh_key_revealedCube [simp]: "mesh_key (revealedCube c) = mesh_key c"
  by (simp add: revealedCube_def mesh_key_def)

lemma textured_revealedCube [simp]: "textured (revealedCube c)"
  by (simp add: revealedCube_def)











section \<open>The stack-height counter\<close>



section \<open>Variant A: the reset\<close>




section \<open>Reading the stack height\<close>





end
